theory Spec2Isabelle
  imports Complex_Main "HOL-Library.Sublist" "HOL-Library.Multiset"
begin

section \<open>Data model\<close>

text \<open>
  A task as \<^verbatim>\<open>taskSchema\<close> types it: five strings, a number and a boolean. The
  priority is a JavaScript number; the finite ones are rationals, and the schema's range
  check refuses NaN and both infinities, so \<^typ>\<open>rat\<close> carries every value that matters.
\<close>

record task =
  task_id :: string
  title :: string
  description :: string
  dueDate :: string
  createdAt :: string
  priority :: rat
  completed :: bool

text \<open>
  The document lowdb holds in \<^verbatim>\<open>db.data\<close>: an object whose \<^verbatim>\<open>tasks\<close> field is an
  array, or is missing (\<open>None\<close>).
\<close>

record doc =
  tasks :: "task list option"

text \<open>
  The \<^verbatim>\<open>Low\<close> instance: \<open>data\<close> is \<^verbatim>\<open>db.data\<close> (\<open>None\<close> is \<^verbatim>\<open>null\<close>), \<open>json_file\<close>
  is what the last successful write left in \<^verbatim>\<open>db.json\<close> (\<open>None\<close>: there is no file).
\<close>

record low =
  data :: "doc option"
  json_file :: "doc option"

text \<open>
  The answers \<^verbatim>\<open>inquirer.prompt\<close> hands to \<^verbatim>\<open>addTask\<close> and \<^verbatim>\<open>updateTask\<close>.
\<close>

record answers =
  ans_title :: string
  ans_description :: string
  ans_dueDate :: string
  ans_priority :: rat

text \<open>
  What a \<^verbatim>\<open>ZodError\<close> reports, one issue per failed check, in the order of the schema's keys.
\<close>

datatype issue = TitleEmpty | InvalidDate | TooSmall | TooBig

datatype error = ZodError "issue list" | TypeError | WriteError

text \<open>
  How a command ends: \<^verbatim>\<open>spinner.succeed\<close>, \<^verbatim>\<open>spinner.fail\<close> in the \<^verbatim>\<open>catch\<close> block, a yellow
  \<^verbatim>\<open>console.log\<close> followed by \<^verbatim>\<open>return\<close>, or an exception that leaves the function.
\<close>

datatype message = TaskAdded | TaskUpdated | TaskCompleted | TaskRemoved | Cleared nat

datatype notice =
  NoTasksToUpdate | NoIncompleteTasks | NoTasksToRemove | RemovalCancelled
  | NoCompletedTasks | ClearCancelled

datatype outcome = Succeed message | Fail error | Notice notice | Throw error

datatype sortBy = SortDueDate | SortPriority | SortCompleted | SortCreatedAt

datatype listing = NoTasksFound | Table "task list"

section \<open>Library functions the program calls\<close>

text \<open>
  \<^verbatim>\<open>dayjs\<close> is not part of the repository: every function takes it as the parameter \<open>D\<close>,
  the millisecond value of the parsed string, \<open>None\<close> when \<^verbatim>\<open>isValid()\<close> is false.
\<close>

type_synonym dayjs = "string \<Rightarrow> int option"

definition isValid :: "dayjs \<Rightarrow> string \<Rightarrow> bool" where
  "isValid D s = (D s \<noteq> None)"

definition isBefore :: "dayjs \<Rightarrow> string \<Rightarrow> string \<Rightarrow> bool" where
  "isBefore D a b = (case D a of None \<Rightarrow> False
                     | Some x \<Rightarrow> (case D b of None \<Rightarrow> False | Some y \<Rightarrow> x < y))"

text \<open>A small calendar for evaluating the definitions on concrete tasks.\<close>

definition sample_dayjs :: dayjs where
  "sample_dayjs s =
     (if s = ''2024-01-01'' then Some 1704067200000
      else if s = ''2024-01-02'' then Some 1704153600000
      else if s = ''2024-01-03'' then Some 1704240000000
      else None)"

text \<open>
  \<^verbatim>\<open>String.prototype.trim\<close> removes white space and line terminators from both ends. A
  \<^typ>\<open>string\<close> is the UTF-8 encoding of the JavaScript string, so each of the 25 code
  points ECMAScript counts as white space or line terminator is a sequence of one to three
  bytes: U+0009 to U+000D, U+0020, U+00A0, U+1680, U+2000 to U+200A, U+2028, U+2029, U+202F,
  U+205F, U+3000 and U+FEFF.
\<close>

definition white_space :: "string list" where
  "white_space =
     [[CHR 0x09], [CHR 0x0A], [CHR 0x0B], [CHR 0x0C], [CHR 0x0D], [CHR 0x20],
      [CHR 0xC2, CHR 0xA0], [CHR 0xE1, CHR 0x9A, CHR 0x80],
      [CHR 0xE2, CHR 0x80, CHR 0x80], [CHR 0xE2, CHR 0x80, CHR 0x81],
      [CHR 0xE2, CHR 0x80, CHR 0x82], [CHR 0xE2, CHR 0x80, CHR 0x83],
      [CHR 0xE2, CHR 0x80, CHR 0x84], [CHR 0xE2, CHR 0x80, CHR 0x85],
      [CHR 0xE2, CHR 0x80, CHR 0x86], [CHR 0xE2, CHR 0x80, CHR 0x87],
      [CHR 0xE2, CHR 0x80, CHR 0x88], [CHR 0xE2, CHR 0x80, CHR 0x89],
      [CHR 0xE2, CHR 0x80, CHR 0x8A], [CHR 0xE2, CHR 0x80, CHR 0xA8],
      [CHR 0xE2, CHR 0x80, CHR 0xA9], [CHR 0xE2, CHR 0x80, CHR 0xAF],
      [CHR 0xE2, CHR 0x81, CHR 0x9F], [CHR 0xE3, CHR 0x80, CHR 0x80],
      [CHR 0xEF, CHR 0xBB, CHR 0xBF]]"

text \<open>\<open>strip ws s\<close> removes from the front of \<open>s\<close> every leading sequence listed in \<open>ws\<close>.\<close>

function strip :: "string list \<Rightarrow> string \<Rightarrow> string" where
  "strip ws s =
     (case find (\<lambda>w. w \<noteq> [] \<and> prefix w s) ws of
        None \<Rightarrow> s
      | Some w \<Rightarrow> strip ws (drop (length w) s))"
  by pat_completeness auto
termination
proof (relation "measure (\<lambda>(ws, s). length s)")
  show "wf (measure (\<lambda>(ws, s). length s))" by simp
next
  fix ws :: "string list" and s w :: string
  assume "find (\<lambda>w. w \<noteq> [] \<and> prefix w s) ws = Some w"
  then have "w \<noteq> []" and "prefix w s" by (auto simp add: find_Some_iff)
  then have "s \<noteq> []" by auto
  with \<open>w \<noteq> []\<close> show "((ws, drop (length w) s), (ws, s)) \<in> measure (\<lambda>(ws, s). length s)"
    by simp
qed

declare strip.simps [simp del]

definition trim :: "string \<Rightarrow> string" where
  "trim s = rev (strip (map rev white_space) (rev (strip white_space s)))"

text \<open>\<^verbatim>\<open>Number.prototype.toString\<close> on the integer \<^verbatim>\<open>Date.now()\<close> returns: decimal digits.\<close>

definition digit :: "nat \<Rightarrow> char" where
  "digit d = ''0123456789'' ! d"

fun digits :: "nat \<Rightarrow> string" where
  "digits n = (if n < 10 then [digit n] else digits (n div 10) @ [digit (n mod 10)])"

declare digits.simps [simp del]

definition toString :: "int \<Rightarrow> string" where
  "toString i = (if i < 0 then CHR ''-'' # digits (nat (- i)) else digits (nat i))"

text \<open>
  \<^verbatim>\<open>Array.prototype.find\<close> is \<^const>\<open>List.find\<close>; \<^verbatim>\<open>findIndex\<close> returns \<open>-1\<close> when nothing matches.
\<close>

fun findIndex :: "('a \<Rightarrow> bool) \<Rightarrow> 'a list \<Rightarrow> int" where
  "findIndex P [] = - 1"
| "findIndex P (x # xs) =
     (if P x then 0 else (let i = findIndex P xs in if i < 0 then - 1 else i + 1))"

text \<open>
  Reading \<^verbatim>\<open>xs[i]\<close>: \<^verbatim>\<open>undefined\<close> (\<open>None\<close>) outside the array. Writing \<^verbatim>\<open>xs[i] = v\<close> at an
  index of the array replaces the element; at \<open>-1\<close> it sets a property named \<^verbatim>\<open>"-1"\<close> and
  no element changes (\<^verbatim>\<open>findIndex\<close> never returns an index past the end).
\<close>

definition array_get :: "'a list \<Rightarrow> int \<Rightarrow> 'a option" where
  "array_get xs i = (if 0 \<le> i \<and> i < int (length xs) then Some (xs ! nat i) else None)"

definition array_set :: "'a list \<Rightarrow> int \<Rightarrow> 'a \<Rightarrow> 'a list" where
  "array_set xs i v = (if 0 \<le> i \<and> i < int (length xs) then xs[nat i := v] else xs)"

text \<open>
  \<^verbatim>\<open>Array.prototype.sort\<close> belongs to the engine. ECMAScript asks for a stable sort; the
  model is the stable insertion sort that, like V8's, hands the comparator the later element
  first and moves it in front of an earlier one only on a negative answer.
\<close>

fun sort_insert :: "('a \<Rightarrow> 'a \<Rightarrow> rat) \<Rightarrow> 'a \<Rightarrow> 'a list \<Rightarrow> 'a list" where
  "sort_insert cmp x [] = [x]"
| "sort_insert cmp x (y # ys) =
     (if cmp x y < 0 then x # y # ys else y # sort_insert cmp x ys)"

definition array_sort :: "('a \<Rightarrow> 'a \<Rightarrow> rat) \<Rightarrow> 'a list \<Rightarrow> 'a list" where
  "array_sort cmp xs = foldl (\<lambda>acc x. sort_insert cmp x acc) [] xs"

text \<open>
  lowdb: \<^verbatim>\<open>db.read()\<close> loads the file into \<^verbatim>\<open>db.data\<close> (\<^verbatim>\<open>null\<close> without a file);
  \<^verbatim>\<open>db.write()\<close> writes \<^verbatim>\<open>db.data\<close> unless it is \<^verbatim>\<open>null\<close>. Whether the file system
  accepts the write is the caller's argument \<open>ok\<close>; a refused write leaves the file as it was.
\<close>

definition db_read :: "low \<Rightarrow> low" where
  "db_read db = db\<lparr>data := json_file db\<rparr>"

definition db_write :: "bool \<Rightarrow> low \<Rightarrow> error + low" where
  "db_write ok db =
     (case data db of
        None \<Rightarrow> Inr db
      | Some d \<Rightarrow> if ok then Inr (db\<lparr>json_file := Some d\<rparr>) else Inl WriteError)"

text \<open>\<^verbatim>\<open>db.data.tasks\<close>, read and assigned.\<close>

definition db_tasks :: "low \<Rightarrow> task list option" where
  "db_tasks db = (case data db of None \<Rightarrow> None | Some d \<Rightarrow> tasks d)"

definition set_tasks :: "task list \<Rightarrow> low \<Rightarrow> low" where
  "set_tasks ts db = db\<lparr>data := map_option (\<lambda>d. d\<lparr>tasks := Some ts\<rparr>) (data db)\<rparr>"

section \<open>The program\<close>

text \<open>
  \<^verbatim>\<open>taskSchema\<close>: the fields are typed by the record, so what is left to check is the
  title's length, the due date and the range of the priority.
\<close>

definition taskSchema_issues :: "dayjs \<Rightarrow> task \<Rightarrow> issue list" where
  "taskSchema_issues D t =
     (if length (title t) < 1 then [TitleEmpty] else []) @
     (if isValid D (dueDate t) then [] else [InvalidDate]) @
     (if priority t < 1 then [TooSmall] else []) @
     (if 3 < priority t then [TooBig] else [])"

definition taskSchema_parse :: "dayjs \<Rightarrow> task \<Rightarrow> error + task" where
  "taskSchema_parse D t =
     (case taskSchema_issues D t of [] \<Rightarrow> Inr t | i # is \<Rightarrow> Inl (ZodError (i # is)))"

text \<open>
  \<^verbatim>\<open>initializeDB\<close>: read, put the default document in place of \<^verbatim>\<open>null\<close>, write. A refused
  write throws to \<^verbatim>\<open>main\<close>.
\<close>

definition initializeDB :: "bool \<Rightarrow> low \<Rightarrow> error + low" where
  "initializeDB ok db =
     (let db1 = db_read db;
          db2 = (case data db1 of
                   None \<Rightarrow> db1\<lparr>data := Some \<lparr>tasks = Some []\<rparr>\<rparr>
                 | Some d \<Rightarrow> db1)
      in db_write ok db2)"

text \<open>
  The prompts of \<^verbatim>\<open>addTask\<close> and \<^verbatim>\<open>updateTask\<close> ask again until their \<^verbatim>\<open>validate\<close>
  functions accept the input, and offer the priorities 1, 2 and 3: these are the answers they
  can deliver. The update prompt has no check on the title.
\<close>

definition addTask_prompt :: "dayjs \<Rightarrow> answers \<Rightarrow> bool" where
  "addTask_prompt D a =
     (trim (ans_title a) \<noteq> [] \<and> isValid D (ans_dueDate a) \<and> ans_priority a \<in> {1, 2, 3})"

definition updateTask_prompt :: "dayjs \<Rightarrow> answers \<Rightarrow> bool" where
  "updateTask_prompt D a = (isValid D (ans_dueDate a) \<and> ans_priority a \<in> {1, 2, 3})"

text \<open>
  \<^verbatim>\<open>addTask\<close>, with \<open>now\<close> the value of \<^verbatim>\<open>Date.now()\<close> and \<open>created\<close> the string
  \<^verbatim>\<open>dayjs().format()\<close>. Everything runs inside \<^verbatim>\<open>try\<close>: a \<^verbatim>\<open>push\<close> on a missing
  \<^verbatim>\<open>tasks\<close> field is a caught TypeError. (\<^verbatim>\<open>answers.description || ''\<close> is the answer
  itself, a string.)
\<close>

definition addTask :: "dayjs \<Rightarrow> int \<Rightarrow> string \<Rightarrow> answers \<Rightarrow> bool \<Rightarrow> low \<Rightarrow> outcome \<times> low" where
  "addTask D now created a ok db =
     (let newTask = \<lparr>task_id = toString now, title = ans_title a,
                     description = ans_description a, dueDate = ans_dueDate a,
                     createdAt = created, priority = ans_priority a, completed = False\<rparr>
      in case taskSchema_parse D newTask of
           Inl e \<Rightarrow> (Fail e, db)
         | Inr _ \<Rightarrow>
            (case db_tasks db of
               None \<Rightarrow> (Fail TypeError, db)
             | Some ts \<Rightarrow>
                (let db1 = set_tasks (ts @ [newTask]) db
                 in case db_write ok db1 of
                      Inl e \<Rightarrow> (Fail e, db1)
                    | Inr db2 \<Rightarrow> (Succeed TaskAdded, db2))))"

text \<open>
  The comparator of \<^verbatim>\<open>listTasks\<close>: for the two date keys it answers \<open>-1\<close> or \<open>1\<close>, never \<open>0\<close>.
\<close>

definition compareTasks :: "dayjs \<Rightarrow> sortBy \<Rightarrow> task \<Rightarrow> task \<Rightarrow> rat" where
  "compareTasks D sb a b =
     (case sb of
        SortPriority \<Rightarrow> priority a - priority b
      | SortCompleted \<Rightarrow> (if completed a = completed b then 0 else if completed a then 1 else - 1)
      | SortDueDate \<Rightarrow> (if isBefore D (dueDate a) (dueDate b) then - 1 else 1)
      | SortCreatedAt \<Rightarrow> (if isBefore D (createdAt a) (createdAt b) then - 1 else 1))"

text \<open>
  \<^verbatim>\<open>listTasks\<close> returns the rows of the table in the order shown. It works on a copy; the
  store is not an output.
\<close>

definition listTasks :: "dayjs \<Rightarrow> sortBy \<Rightarrow> bool \<Rightarrow> low \<Rightarrow> error + listing" where
  "listTasks D sb showCompleted db =
     (case db_tasks db of
        None \<Rightarrow> Inl TypeError
      | Some ts \<Rightarrow>
         if length ts = 0 then Inr NoTasksFound
         else (let tasksToDisplay =
                     (if \<not> showCompleted then filter (\<lambda>t. \<not> completed t) ts else ts)
               in Inr (Table (array_sort (compareTasks D sb) tasksToDisplay))))"

text \<open>
  \<^verbatim>\<open>updateTask\<close>. The list prompt offers the ids of the stored tasks; for any other \<open>taskId\<close>
  \<^verbatim>\<open>find\<close> returns \<^verbatim>\<open>undefined\<close> and building the next prompt throws, outside \<^verbatim>\<open>try\<close>.
\<close>

definition updateTask :: "dayjs \<Rightarrow> string \<Rightarrow> answers \<Rightarrow> bool \<Rightarrow> low \<Rightarrow> outcome \<times> low" where
  "updateTask D taskId a ok db =
     (case db_tasks db of
        None \<Rightarrow> (Throw TypeError, db)
      | Some ts \<Rightarrow>
         if length ts = 0 then (Notice NoTasksToUpdate, db)
         else (case find (\<lambda>t. task_id t = taskId) ts of
                 None \<Rightarrow> (Throw TypeError, db)
               | Some t \<Rightarrow>
                  (let updatedTask = t\<lparr>title := ans_title a, description := ans_description a,
                                        dueDate := ans_dueDate a, priority := ans_priority a\<rparr>
                   in case taskSchema_parse D updatedTask of
                        Inl e \<Rightarrow> (Fail e, db)
                      | Inr _ \<Rightarrow>
                         (let taskIndex = findIndex (\<lambda>t. task_id t = taskId) ts;
                              db1 = set_tasks (array_set ts taskIndex updatedTask) db
                          in case db_write ok db1 of
                               Inl e \<Rightarrow> (Fail e, db1)
                             | Inr db2 \<Rightarrow> (Succeed TaskUpdated, db2)))))"

text \<open>
  \<^verbatim>\<open>markComplete\<close>. Setting \<^verbatim>\<open>completed\<close> on \<^verbatim>\<open>tasks[-1]\<close> is a TypeError, caught by the
  \<^verbatim>\<open>try\<close> around it.
\<close>

definition markComplete :: "string \<Rightarrow> bool \<Rightarrow> low \<Rightarrow> outcome \<times> low" where
  "markComplete taskId ok db =
     (case db_tasks db of
        None \<Rightarrow> (Throw TypeError, db)
      | Some ts \<Rightarrow>
         (let incompleteTasks = filter (\<lambda>t. \<not> completed t) ts
          in if length incompleteTasks = 0 then (Notice NoIncompleteTasks, db)
             else (let taskIndex = findIndex (\<lambda>t. task_id t = taskId) ts
                   in case array_get ts taskIndex of
                        None \<Rightarrow> (Fail TypeError, db)
                      | Some t \<Rightarrow>
                         (let db1 = set_tasks (array_set ts taskIndex (t\<lparr>completed := True\<rparr>)) db
                          in case db_write ok db1 of
                               Inl e \<Rightarrow> (Fail e, db1)
                             | Inr db2 \<Rightarrow> (Succeed TaskCompleted, db2)))))"

definition removeTask :: "string \<Rightarrow> bool \<Rightarrow> bool \<Rightarrow> low \<Rightarrow> outcome \<times> low" where
  "removeTask taskId confirm ok db =
     (case db_tasks db of
        None \<Rightarrow> (Throw TypeError, db)
      | Some ts \<Rightarrow>
         if length ts = 0 then (Notice NoTasksToRemove, db)
         else if \<not> confirm then (Notice RemovalCancelled, db)
         else (let db1 = set_tasks (filter (\<lambda>t. task_id t \<noteq> taskId) ts) db
               in case db_write ok db1 of
                    Inl e \<Rightarrow> (Fail e, db1)
                  | Inr db2 \<Rightarrow> (Succeed TaskRemoved, db2)))"

definition clearCompleted :: "bool \<Rightarrow> bool \<Rightarrow> low \<Rightarrow> outcome \<times> low" where
  "clearCompleted confirm ok db =
     (case db_tasks db of
        None \<Rightarrow> (Throw TypeError, db)
      | Some ts \<Rightarrow>
         (let completedTasks = filter (\<lambda>t. completed t) ts
          in if length completedTasks = 0 then (Notice NoCompletedTasks, db)
             else if \<not> confirm then (Notice ClearCancelled, db)
             else (let db1 = set_tasks (filter (\<lambda>t. \<not> completed t) ts) db
                   in case db_write ok db1 of
                        Inl e \<Rightarrow> (Fail e, db1)
                      | Inr db2 \<Rightarrow> (Succeed (Cleared (length completedTasks)), db2))))"

text \<open>
  \<^verbatim>\<open>mainMenu\<close> over a script of menu choices, each with the answers its prompts get and the
  fate of its write. An exception that leaves a command ends the process, as \<^verbatim>\<open>exit\<close> does;
  the result is the store at that point.
\<close>

datatype action =
  Act_add int string answers bool
  | Act_list sortBy bool
  | Act_update string answers bool
  | Act_complete string bool
  | Act_remove string bool bool
  | Act_clear bool bool
  | Act_exit

fun thrown :: "outcome \<Rightarrow> bool" where
  "thrown (Throw e) = True"
| "thrown r = False"

fun command :: "dayjs \<Rightarrow> action \<Rightarrow> low \<Rightarrow> bool \<times> low" where
  "command D (Act_add now created a ok) db =
     (let (r, db') = addTask D now created a ok db in (thrown r, db'))"
| "command D (Act_list sb sc) db =
     (case listTasks D sb sc db of Inl e \<Rightarrow> (True, db) | Inr l \<Rightarrow> (False, db))"
| "command D (Act_update taskId a ok) db =
     (let (r, db') = updateTask D taskId a ok db in (thrown r, db'))"
| "command D (Act_complete taskId ok) db =
     (let (r, db') = markComplete taskId ok db in (thrown r, db'))"
| "command D (Act_remove taskId confirm ok) db =
     (let (r, db') = removeTask taskId confirm ok db in (thrown r, db'))"
| "command D (Act_clear confirm ok) db =
     (let (r, db') = clearCompleted confirm ok db in (thrown r, db'))"
| "command D Act_exit db = (True, db)"

fun mainMenu :: "dayjs \<Rightarrow> action list \<Rightarrow> low \<Rightarrow> low" where
  "mainMenu D [] db = db"
| "mainMenu D (a # as) db =
     (case command D a db of (halt, db') \<Rightarrow> if halt then db' else mainMenu D as db')"

section \<open>Sample data\<close>

definition milk :: task where
  "milk = \<lparr>task_id = ''1704067200000'', title = ''Buy milk'', description = [],
            dueDate = ''2024-01-01'', createdAt = ''2024-01-01'', priority = 2,
            completed = False\<rparr>"

definition bread :: task where
  "bread = \<lparr>task_id = ''1704067200001'', title = ''Buy bread'', description = ''rye'',
             dueDate = ''2024-01-01'', createdAt = ''2024-01-02'', priority = 1,
             completed = True\<rparr>"

definition eggs :: task where
  "eggs = \<lparr>task_id = ''1704067200002'', title = ''Buy eggs'', description = [],
            dueDate = ''2024-01-02'', createdAt = ''2024-01-03'', priority = 3,
            completed = False\<rparr>"

definition store_of :: "task list \<Rightarrow> low" where
  "store_of ts = \<lparr>data = Some \<lparr>tasks = Some ts\<rparr>, json_file = Some \<lparr>tasks = Some ts\<rparr>\<rparr>"

definition milk_answers :: answers where
  "milk_answers = \<lparr>ans_title = ''Buy milk'', ans_description = [],
                    ans_dueDate = ''2024-01-01'', ans_priority = 2\<rparr>"

section \<open>Facts about the library functions and the store\<close>

lemma findIndex_lower: "- 1 \<le> findIndex P xs"
  by (induction xs) (simp_all add: Let_def)

lemma findIndex_upper: "findIndex P xs < int (length xs)"
  by (induction xs) (simp_all add: Let_def)

lemma find_None_findIndex: "find P xs = None \<Longrightarrow> findIndex P xs = - 1"
  by (induction xs) (simp_all add: Let_def split: if_splits)

lemma find_Some_findIndex:
  "find P xs = Some x \<Longrightarrow> 0 \<le> findIndex P xs \<and> xs ! nat (findIndex P xs) = x"
proof (induction xs)
  case Nil
  then show ?case by simp
next
  case (Cons y ys)
  show ?case
  proof (cases "P y")
    case True
    with Cons.prems show ?thesis by simp
  next
    case False
    with Cons.prems have f: "find P ys = Some x" by simp
    from Cons.IH [OF f] have i: "0 \<le> findIndex P ys" and n: "ys ! nat (findIndex P ys) = x"
      by simp_all
    from i have "nat (findIndex P ys + 1) = Suc (nat (findIndex P ys))" by simp
    with False i n show ?thesis by (simp add: Let_def)
  qed
qed

lemma find_array_set:
  "find P xs = Some x \<Longrightarrow> P y \<Longrightarrow> find P (array_set xs (findIndex P xs) y) = Some y"
proof (induction xs)
  case Nil
  then show ?case by simp
next
  case (Cons z zs)
  show ?case
  proof (cases "P z")
    case True
    with Cons.prems show ?thesis by (simp add: array_set_def)
  next
    case False
    with Cons.prems have f: "find P zs = Some x" by simp
    from find_Some_findIndex [OF f] have i: "0 \<le> findIndex P zs" by simp
    then have s: "nat (findIndex P zs + 1) = Suc (nat (findIndex P zs))" by simp
    from Cons.IH [OF f Cons.prems(2)] False i s findIndex_upper [of P zs]
    show ?thesis by (simp add: Let_def array_set_def)
  qed
qed

lemma find_Some_holds: "find P xs = Some x \<Longrightarrow> P x \<and> x \<in> set xs"
  by (induction xs) (auto split: if_splits)


lemma db_tasks_set_tasks: "db_tasks db = Some ts \<Longrightarrow> db_tasks (set_tasks ts' db) = Some ts'"
  by (cases "data db") (simp_all add: db_tasks_def set_tasks_def)

lemma db_tasks_json_file_update [simp]: "db_tasks (db\<lparr>json_file := f\<rparr>) = db_tasks db"
  by (simp add: db_tasks_def)

lemma array_set_findIndex:
  "find P xs = Some x \<Longrightarrow> array_set xs (findIndex P xs) v = xs[nat (findIndex P xs) := v]"
  using find_Some_findIndex [of P xs x] findIndex_upper [of P xs]
  by (simp add: array_set_def)

lemma find_update_first:
  "find P xs = Some x \<Longrightarrow> P y \<Longrightarrow> find P (xs[nat (findIndex P xs) := y]) = Some y"
  using find_array_set [of P xs x y] array_set_findIndex [of P xs x y] by simp

lemma findIndex_nat_less:
  assumes "find P xs = Some x"
  shows "nat (findIndex P xs) < length xs"
proof -
  from find_Some_findIndex [OF assms] have "0 \<le> findIndex P xs" by simp
  with findIndex_upper [of P xs] show ?thesis by linarith
qed

lemma updateTask_absent:
  assumes "db_tasks db = Some ts" and "find (\<lambda>t. task_id t = taskId) ts = None"
  shows "updateTask D taskId a ok db =
           (if ts = [] then Notice NoTasksToUpdate else Throw TypeError, db)"
  using assms by (simp add: updateTask_def)

lemma data_set_tasks_json [simp]: "data (db\<lparr>json_file := f\<rparr>) = data db"
  by simp

lemma json_file_set_tasks [simp]: "json_file (set_tasks ts db) = json_file db"
  by (simp add: set_tasks_def)

subsection \<open>What each command does to a store that has a collection\<close>

lemma db_write_set_tasks:
  "db_tasks db = Some ts \<Longrightarrow>
   db_write ok (set_tasks ts' db) =
     (if ok then Inr ((set_tasks ts' db)\<lparr>json_file := data (set_tasks ts' db)\<rparr>)
      else Inl WriteError)"
  by (cases "data db") (simp_all add: db_tasks_def db_write_def set_tasks_def)

lemma addTask_run:
  assumes "db_tasks db = Some ts"
  shows "addTask D now created a ok db =
     (let newTask = \<lparr>task_id = toString now, title = ans_title a,
                     description = ans_description a, dueDate = ans_dueDate a,
                     createdAt = created, priority = ans_priority a, completed = False\<rparr>;
          db1 = set_tasks (ts @ [newTask]) db
      in if taskSchema_issues D newTask \<noteq> []
         then (Fail (ZodError (taskSchema_issues D newTask)), db)
         else if ok then (Succeed TaskAdded, db1\<lparr>json_file := data db1\<rparr>)
         else (Fail WriteError, db1))"
  using assms
  by (simp add: addTask_def taskSchema_parse_def db_write_set_tasks Let_def split: list.splits)

lemma updateTask_run:
  assumes "db_tasks db = Some ts" and "find (\<lambda>t. task_id t = taskId) ts = Some t"
  shows "updateTask D taskId a ok db =
     (let updatedTask = t\<lparr>title := ans_title a, description := ans_description a,
                           dueDate := ans_dueDate a, priority := ans_priority a\<rparr>;
          db1 = set_tasks (ts[nat (findIndex (\<lambda>t. task_id t = taskId) ts) := updatedTask]) db
      in if taskSchema_issues D updatedTask \<noteq> []
         then (Fail (ZodError (taskSchema_issues D updatedTask)), db)
         else if ok then (Succeed TaskUpdated, db1\<lparr>json_file := data db1\<rparr>)
         else (Fail WriteError, db1))"
proof -
  from assms(2) have ne: "ts \<noteq> []" by auto
  from find_Some_findIndex [OF assms(2)] findIndex_upper [of "\<lambda>t. task_id t = taskId" ts]
  have s: "\<And>v. array_set ts (findIndex (\<lambda>t. task_id t = taskId) ts) v
             = ts[nat (findIndex (\<lambda>t. task_id t = taskId) ts) := v]"
    by (simp add: array_set_def)
  show ?thesis
    using assms ne
    by (simp add: updateTask_def taskSchema_parse_def db_write_set_tasks s Let_def
        split: list.splits)
qed

lemma markComplete_run:
  assumes "db_tasks db = Some ts"
  shows "markComplete taskId ok db =
     (if filter (\<lambda>t. \<not> completed t) ts = [] then (Notice NoIncompleteTasks, db)
      else (case find (\<lambda>t. task_id t = taskId) ts of
              None \<Rightarrow> (Fail TypeError, db)
            | Some t \<Rightarrow>
               (let db1 = set_tasks (ts[nat (findIndex (\<lambda>t. task_id t = taskId) ts)
                                        := t\<lparr>completed := True\<rparr>]) db
                in if ok then (Succeed TaskCompleted, db1\<lparr>json_file := data db1\<rparr>)
                   else (Fail WriteError, db1))))"
proof (cases "find (\<lambda>t. task_id t = taskId) ts")
  case None
  from find_None_findIndex [OF None] show ?thesis
    using assms None by (simp add: markComplete_def array_get_def Let_def)
next
  case (Some t)
  from find_Some_findIndex [OF Some] findIndex_upper [of "\<lambda>t. task_id t = taskId" ts]
  show ?thesis
    using assms Some
    by (simp add: markComplete_def array_get_def array_set_def db_write_set_tasks Let_def)
qed

lemma removeTask_run:
  assumes "db_tasks db = Some ts"
  shows "removeTask taskId confirm ok db =
     (if ts = [] then (Notice NoTasksToRemove, db)
      else if \<not> confirm then (Notice RemovalCancelled, db)
      else (let db1 = set_tasks (filter (\<lambda>t. task_id t \<noteq> taskId) ts) db
            in if ok then (Succeed TaskRemoved, db1\<lparr>json_file := data db1\<rparr>)
               else (Fail WriteError, db1)))"
  using assms by (simp add: removeTask_def db_write_set_tasks Let_def)

lemma clearCompleted_run:
  assumes "db_tasks db = Some ts"
  shows "clearCompleted confirm ok db =
     (if filter (\<lambda>t. completed t) ts = [] then (Notice NoCompletedTasks, db)
      else if \<not> confirm then (Notice ClearCancelled, db)
      else (let db1 = set_tasks (filter (\<lambda>t. \<not> completed t) ts) db
            in if ok then (Succeed (Cleared (length (filter (\<lambda>t. completed t) ts))),
                           db1\<lparr>json_file := data db1\<rparr>)
               else (Fail WriteError, db1)))"
  using assms by (simp add: clearCompleted_def db_write_set_tasks Let_def)

lemma no_tasks_run:
  assumes "db_tasks db = None"
  shows "addTask D now created a ok db =
           (case taskSchema_parse D \<lparr>task_id = toString now, title = ans_title a,
                     description = ans_description a, dueDate = ans_dueDate a,
                     createdAt = created, priority = ans_priority a, completed = False\<rparr> of
              Inl e \<Rightarrow> (Fail e, db) | Inr t \<Rightarrow> (Fail TypeError, db))"
    and "updateTask D taskId a ok db = (Throw TypeError, db)"
    and "markComplete taskId ok db = (Throw TypeError, db)"
    and "removeTask taskId confirm ok db = (Throw TypeError, db)"
    and "clearCompleted confirm ok db = (Throw TypeError, db)"
  using assms
  by (simp_all add: addTask_def updateTask_def markComplete_def removeTask_def
      clearCompleted_def Let_def split: sum.splits)

text \<open>Unfolding rules for evaluating the commands on the sample data.\<close>

lemmas sample_defs = milk_def bread_def eggs_def store_of_def milk_answers_def sample_dayjs_def

lemmas run_defs =
  taskSchema_parse_def taskSchema_issues_def isValid_def db_tasks_def set_tasks_def
  db_write_def db_read_def toString_def digits.simps digit_def array_get_def array_set_def Let_def

section \<open>Persistence failures\<close>

lemma addTask_failed_write:
  "data (snd (addTask D now created a False db)) = data (snd (addTask D now created a True db))
   \<and> json_file (snd (addTask D now created a False db)) = json_file db
   \<and> (fst (addTask D now created a True db) = Succeed TaskAdded \<longrightarrow>
        fst (addTask D now created a False db) = Fail WriteError)"
proof (cases "db_tasks db")
  case None
  then show ?thesis by (simp add: no_tasks_run split: sum.splits)
next
  case (Some ts)
  then show ?thesis by (simp add: addTask_run Let_def)
qed

lemma updateTask_failed_write:
  "data (snd (updateTask D taskId a False db)) = data (snd (updateTask D taskId a True db))
   \<and> json_file (snd (updateTask D taskId a False db)) = json_file db
   \<and> (fst (updateTask D taskId a True db) = Succeed TaskUpdated \<longrightarrow>
        fst (updateTask D taskId a False db) = Fail WriteError)"
proof (cases "db_tasks db")
  case None
  then show ?thesis by (simp add: no_tasks_run)
next
  case (Some ts)
  show ?thesis
  proof (cases "find (\<lambda>t. task_id t = taskId) ts")
    case None
    with Some show ?thesis by (simp add: updateTask_absent)
  next
    case (Some t)
    with \<open>db_tasks db = Some ts\<close> show ?thesis by (simp add: updateTask_run Let_def)
  qed
qed

lemma markComplete_failed_write:
  "data (snd (markComplete taskId False db)) = data (snd (markComplete taskId True db))
   \<and> json_file (snd (markComplete taskId False db)) = json_file db
   \<and> (fst (markComplete taskId True db) = Succeed TaskCompleted \<longrightarrow>
        fst (markComplete taskId False db) = Fail WriteError)"
proof (cases "db_tasks db")
  case None
  then show ?thesis by (simp add: no_tasks_run)
next
  case (Some ts)
  then show ?thesis by (simp add: markComplete_run Let_def split: option.splits)
qed

lemma removeTask_failed_write:
  "data (snd (removeTask taskId confirm False db)) = data (snd (removeTask taskId confirm True db))
   \<and> json_file (snd (removeTask taskId confirm False db)) = json_file db
   \<and> (fst (removeTask taskId confirm True db) = Succeed TaskRemoved \<longrightarrow>
        fst (removeTask taskId confirm False db) = Fail WriteError)"
proof (cases "db_tasks db")
  case None
  then show ?thesis by (simp add: no_tasks_run)
next
  case (Some ts)
  then show ?thesis by (simp add: removeTask_run Let_def)
qed

lemma clearCompleted_failed_write:
  "data (snd (clearCompleted confirm False db)) = data (snd (clearCompleted confirm True db))
   \<and> json_file (snd (clearCompleted confirm False db)) = json_file db
   \<and> (\<forall>n. fst (clearCompleted confirm True db) = Succeed (Cleared n) \<longrightarrow>
        fst (clearCompleted confirm False db) = Fail WriteError)"
proof (cases "db_tasks db")
  case None
  then show ?thesis by (simp add: no_tasks_run)
next
  case (Some ts)
  then show ?thesis by (simp add: clearCompleted_run Let_def)
qed

lemma sample_runs:
  "fst (addTask sample_dayjs 1704067200000 ''2024-01-01'' milk_answers True (store_of [bread]))
     = Succeed TaskAdded"
  "fst (updateTask sample_dayjs ''1704067200001'' milk_answers True (store_of [bread]))
     = Succeed TaskUpdated"
  "fst (markComplete ''1704067200000'' True (store_of [milk, bread])) = Succeed TaskCompleted"
  "fst (removeTask ''1704067200001'' True True (store_of [bread])) = Succeed TaskRemoved"
  "fst (clearCompleted True True (store_of [bread])) = Succeed (Cleared 1)"
  by (simp_all add: addTask_def updateTask_def markComplete_def removeTask_def
      clearCompleted_def run_defs sample_defs)

text \<open>
  Claim C1, as the code has it: no command rolls back. For each of \<^verbatim>\<open>addTask\<close>,
  \<^verbatim>\<open>updateTask\<close>, \<^verbatim>\<open>markComplete\<close>, \<^verbatim>\<open>removeTask\<close> and \<^verbatim>\<open>clearCompleted\<close>, when the
  write is refused the document in memory is the one a successful write would have left (the
  mutation is kept), the persisted document is unchanged, and where the command would have
  reported success it reports the write error.
\<close>

theorem failed_write_keeps_mutation:
  "(data (snd (addTask D now created a False db)) = data (snd (addTask D now created a True db))
    \<and> json_file (snd (addTask D now created a False db)) = json_file db
    \<and> (fst (addTask D now created a True db) = Succeed TaskAdded \<longrightarrow>
         fst (addTask D now created a False db) = Fail WriteError))
   \<and> (data (snd (updateTask D taskId a False db)) = data (snd (updateTask D taskId a True db))
    \<and> json_file (snd (updateTask D taskId a False db)) = json_file db
    \<and> (fst (updateTask D taskId a True db) = Succeed TaskUpdated \<longrightarrow>
         fst (updateTask D taskId a False db) = Fail WriteError))
   \<and> (data (snd (markComplete taskId False db)) = data (snd (markComplete taskId True db))
    \<and> json_file (snd (markComplete taskId False db)) = json_file db
    \<and> (fst (markComplete taskId True db) = Succeed TaskCompleted \<longrightarrow>
         fst (markComplete taskId False db) = Fail WriteError))
   \<and> (data (snd (removeTask taskId confirm False db))
        = data (snd (removeTask taskId confirm True db))
    \<and> json_file (snd (removeTask taskId confirm False db)) = json_file db
    \<and> (fst (removeTask taskId confirm True db) = Succeed TaskRemoved \<longrightarrow>
         fst (removeTask taskId confirm False db) = Fail WriteError))
   \<and> (data (snd (clearCompleted confirm False db)) = data (snd (clearCompleted confirm True db))
    \<and> json_file (snd (clearCompleted confirm False db)) = json_file db
    \<and> (\<forall>n. fst (clearCompleted confirm True db) = Succeed (Cleared n) \<longrightarrow>
         fst (clearCompleted confirm False db) = Fail WriteError))"
  using addTask_failed_write [of D now created a db] updateTask_failed_write [of D taskId a db]
    markComplete_failed_write [of taskId db] removeTask_failed_write [of taskId confirm db]
    clearCompleted_failed_write [of confirm db]
  by blast

theorem failed_write_keeps_mutation_witness:
  "fst (addTask sample_dayjs 1704067200000 ''2024-01-01'' milk_answers True (store_of [bread]))
     = Succeed TaskAdded
   \<and> fst (addTask sample_dayjs 1704067200000 ''2024-01-01'' milk_answers False (store_of [bread]))
     = Fail WriteError
   \<and> fst (updateTask sample_dayjs ''1704067200001'' milk_answers True (store_of [bread]))
     = Succeed TaskUpdated
   \<and> fst (updateTask sample_dayjs ''1704067200001'' milk_answers False (store_of [bread]))
     = Fail WriteError
   \<and> fst (markComplete ''1704067200000'' True (store_of [milk, bread])) = Succeed TaskCompleted
   \<and> fst (markComplete ''1704067200000'' False (store_of [milk, bread])) = Fail WriteError
   \<and> fst (removeTask ''1704067200001'' True True (store_of [bread])) = Succeed TaskRemoved
   \<and> fst (removeTask ''1704067200001'' True False (store_of [bread])) = Fail WriteError
   \<and> fst (clearCompleted True True (store_of [bread])) = Succeed (Cleared 1)
   \<and> fst (clearCompleted True False (store_of [bread])) = Fail WriteError"
  using sample_runs
    failed_write_keeps_mutation [of sample_dayjs 1704067200000 "''2024-01-01''" milk_answers
      "store_of [bread]" "''1704067200001''" True]
    failed_write_keeps_mutation [of sample_dayjs 1704067200000 "''2024-01-01''" milk_answers
      "store_of [milk, bread]" "''1704067200000''" True]
  by simp

text \<open>
  The claim as written has memory equal to the last persisted collection after a failed
  write. After a refused write \<^verbatim>\<open>addTask\<close> has the new task in memory and not in the file,
  and \<^verbatim>\<open>markComplete\<close> has the flag set in memory and not in the file.
\<close>

theorem failed_write_counterexample:
  "addTask sample_dayjs 1704067200000 ''2024-01-01'' milk_answers False (store_of [])
     = (Fail WriteError, \<lparr>data = Some \<lparr>tasks = Some [milk]\<rparr>, json_file = Some \<lparr>tasks = Some []\<rparr>\<rparr>)
   \<and> markComplete ''1704067200000'' False (store_of [milk])
     = (Fail WriteError, \<lparr>data = Some \<lparr>tasks = Some [milk\<lparr>completed := True\<rparr>]\<rparr>,
                          json_file = Some \<lparr>tasks = Some [milk]\<rparr>\<rparr>)
   \<and> [milk] \<noteq> ([] :: task list) \<and> [milk\<lparr>completed := True\<rparr>] \<noteq> [milk]"
  by (simp add: addTask_def markComplete_def run_defs sample_defs)

section \<open>Validation\<close>

text \<open>
  Claim C2 asks that \<^verbatim>\<open>addTask\<close> and \<^verbatim>\<open>updateTask\<close> with a title that is empty once trimmed
  fail with a validation error and leave the store unchanged. The code falls short of it on
  the update path. The add prompt refuses a title of one space; the update prompt accepts it,
  the schema counts its length as 1, and \<^verbatim>\<open>updateTask\<close> stores it and reports success.
\<close>

theorem updateTask_blank_title:
  "trim '' '' = []
   \<and> \<not> addTask_prompt sample_dayjs (milk_answers\<lparr>ans_title := '' ''\<rparr>)
   \<and> updateTask_prompt sample_dayjs (milk_answers\<lparr>ans_title := '' ''\<rparr>)
   \<and> updateTask sample_dayjs ''1704067200000'' (milk_answers\<lparr>ans_title := '' ''\<rparr>) True
        (store_of [milk])
       = (Succeed TaskUpdated, store_of [milk\<lparr>title := '' ''\<rparr>])
   \<and> store_of [milk\<lparr>title := '' ''\<rparr>] \<noteq> store_of [milk]"
proof -
  have t: "trim '' '' = []"
    by (simp add: trim_def white_space_def strip.simps)
  then have "\<not> addTask_prompt sample_dayjs (milk_answers\<lparr>ans_title := '' ''\<rparr>)"
    by (simp add: addTask_prompt_def)
  moreover have "updateTask_prompt sample_dayjs (milk_answers\<lparr>ans_title := '' ''\<rparr>)"
    by (simp add: updateTask_prompt_def isValid_def sample_defs)
  moreover have "updateTask sample_dayjs ''1704067200000'' (milk_answers\<lparr>ans_title := '' ''\<rparr>) True
        (store_of [milk])
       = (Succeed TaskUpdated, store_of [milk\<lparr>title := '' ''\<rparr>])"
    by (simp add: updateTask_def run_defs sample_defs)
  moreover have "store_of [milk\<lparr>title := '' ''\<rparr>] \<noteq> store_of [milk]"
    by (simp add: sample_defs)
  ultimately show ?thesis using t by blast
qed

section \<open>Removing\<close>




section \<open>Ids\<close>

subsection \<open>The decimal string of a clock reading determines it\<close>

lemma digit_inj: "a < 10 \<Longrightarrow> b < 10 \<Longrightarrow> digit a = digit b \<Longrightarrow> a = b"
proof -
  assume a: "a < 10" and b: "b < 10" and e: "digit a = digit b"
  have d: "distinct ''0123456789''" by simp
  have "a < length ''0123456789''" "b < length ''0123456789''" using a b by simp_all
  with d e show "a = b" unfolding digit_def by (simp only: nth_eq_iff_index_eq)
qed

lemma digit_not_minus: "d < 10 \<Longrightarrow> digit d \<noteq> CHR ''-''"
proof -
  assume "d < 10"
  then have "d < length ''0123456789''" by simp
  then have "digit d \<in> set ''0123456789''" unfolding digit_def by (rule nth_mem)
  then show ?thesis by auto
qed

lemma digits_nonempty: "digits n \<noteq> []"
  by (subst digits.simps) simp

lemma digits_inj: "digits m = digits n \<Longrightarrow> m = n"
proof (induction m arbitrary: n rule: digits.induct)
  case (1 m)
  show ?case
  proof (cases "m < 10")
    case True
    with "1.prems" have e: "[digit m] = digits n" by (subst (asm) digits.simps) simp
    show ?thesis
    proof (cases "n < 10")
      case n: True
      with e have "digit m = digit n" by (subst (asm) digits.simps) simp
      with True n show ?thesis by (rule digit_inj)
    next
      case False
      with e have "[digit m] = digits (n div 10) @ [digit (n mod 10)]"
        by (subst (asm) digits.simps) simp
      then have "digits (n div 10) = []" by simp
      with digits_nonempty show ?thesis by blast
    qed
  next
    case False
    with "1.prems" have e: "digits (m div 10) @ [digit (m mod 10)] = digits n"
      by (subst (asm) digits.simps) simp
    show ?thesis
    proof (cases "n < 10")
      case True
      with e have "digits (m div 10) @ [digit (m mod 10)] = [digit n]"
        by (subst (asm) (2) digits.simps) simp
      then have "digits (m div 10) = []" by simp
      with digits_nonempty show ?thesis by blast
    next
      case n: False
      with e have "digits (m div 10) @ [digit (m mod 10)] = digits (n div 10) @ [digit (n mod 10)]"
        by (subst (asm) (2) digits.simps) simp
      then have q: "digits (m div 10) = digits (n div 10)"
        and r: "digit (m mod 10) = digit (n mod 10)" by simp_all
      from "1.IH" [OF False q] have "m div 10 = n div 10" .
      moreover from r have "m mod 10 = n mod 10" by (intro digit_inj) simp_all
      ultimately show ?thesis by (metis div_mult_mod_eq)
    qed
  qed
qed

lemma digits_no_minus: "hd (digits n) \<noteq> CHR ''-''"
proof (induction n rule: digits.induct)
  case (1 n)
  show ?case
  proof (cases "n < 10")
    case True
    then show ?thesis by (subst digits.simps) (simp add: digit_not_minus)
  next
    case False
    with "1.IH" digits_nonempty [of "n div 10"] show ?thesis
      by (subst digits.simps) simp
  qed
qed

lemma toString_inj: "toString i = toString j \<Longrightarrow> i = j"
proof -
  assume e: "toString i = toString j"
  have m: "\<And>a b. CHR ''-'' # digits a \<noteq> digits b"
  proof
    fix a b assume "CHR ''-'' # digits a = digits b"
    then have "hd (digits b) = CHR ''-''" by (metis list.sel(1))
    with digits_no_minus show False by blast
  qed
  show ?thesis
  proof (cases "i < 0")
    case True
    show ?thesis
    proof (cases "j < 0")
      case j: True
      with True e have "digits (nat (- i)) = digits (nat (- j))" by (simp add: toString_def)
      then have "nat (- i) = nat (- j)" by (rule digits_inj)
      with True j show ?thesis by simp
    next
      case False
      with True e m show ?thesis by (simp add: toString_def)
    qed
  next
    case False
    show ?thesis
    proof (cases "j < 0")
      case True
      with False e m [of "nat (- j)" "nat i"] show ?thesis by (simp add: toString_def)
    next
      case j: False
      with False e have "digits (nat i) = digits (nat j)" by (simp add: toString_def)
      then have "nat i = nat j" by (rule digits_inj)
      with False j show ?thesis by simp
    qed
  qed
qed

subsection \<open>Runs of additions\<close>

lemma addTask_step:
  assumes "db_tasks db = Some ts"
  shows "\<not> thrown (fst (addTask D now created a ok db))
       \<and> (\<exists>ts1. db_tasks (snd (addTask D now created a ok db)) = Some ts1
            \<and> (ts1 = ts \<or> (\<exists>t. ts1 = ts @ [t] \<and> task_id t = toString now)))"
  using assms by (simp add: addTask_run [OF assms] Let_def db_tasks_set_tasks)

lemma mainMenu_adds_distinct:
  assumes "db_tasks db = Some ts"
    and "distinct (map task_id ts)"
    and "distinct (map fst adds)"
    and "\<forall>n\<in>set (map fst adds). toString n \<notin> set (map task_id ts)"
  shows "\<exists>ts'. db_tasks (mainMenu D (map (\<lambda>(n, c, a, ok). Act_add n c a ok) adds) db) = Some ts'
           \<and> distinct (map task_id ts')"
  using assms
proof (induction adds arbitrary: db ts)
  case Nil
  then show ?case by simp
next
  case (Cons x rest)
  obtain n c a ok where x: "x = (n, c, a, ok)" by (cases x) auto
  let ?r = "addTask D n c a ok db"
  from addTask_step [OF Cons.prems(1), of D n c a ok]
  obtain ts1 where nt: "\<not> thrown (fst ?r)" and t1: "db_tasks (snd ?r) = Some ts1"
    and sh: "ts1 = ts \<or> (\<exists>t. ts1 = ts @ [t] \<and> task_id t = toString n)"
    by blast
  from Cons.prems(3) x have nr: "n \<notin> set (map fst rest)" and dr: "distinct (map fst rest)"
    by simp_all
  from Cons.prems(4) x have fresh: "toString n \<notin> set (map task_id ts)"
    and fr: "\<forall>m\<in>set (map fst rest). toString m \<notin> set (map task_id ts)"
    by simp_all
  have d1: "distinct (map task_id ts1)"
    using sh Cons.prems(2) fresh by auto
  have f1: "\<forall>m\<in>set (map fst rest). toString m \<notin> set (map task_id ts1)"
  proof
    fix m assume m: "m \<in> set (map fst rest)"
    with nr have "m \<noteq> n" by blast
    then have "toString m \<noteq> toString n" using toString_inj by blast
    from fr m have old: "toString m \<notin> set (map task_id ts)" by blast
    from sh show "toString m \<notin> set (map task_id ts1)"
    proof
      assume "ts1 = ts"
      with old show ?thesis by simp
    next
      assume "\<exists>t. ts1 = ts @ [t] \<and> task_id t = toString n"
      then obtain t where "ts1 = ts @ [t]" and "task_id t = toString n" by blast
      with old \<open>toString m \<noteq> toString n\<close> show ?thesis by simp
    qed
  qed
  from Cons.IH [OF t1 d1 dr f1]
  obtain ts' where "db_tasks (mainMenu D (map (\<lambda>(n, c, a, ok). Act_add n c a ok) rest) (snd ?r))
      = Some ts'" and "distinct (map task_id ts')" by blast
  moreover have "mainMenu D (map (\<lambda>(n, c, a, ok). Act_add n c a ok) (x # rest)) db
      = mainMenu D (map (\<lambda>(n, c, a, ok). Act_add n c a ok) rest) (snd ?r)"
    using nt x by (simp add: split_beta)
  ultimately show ?case by simp
qed

text \<open>
  Claim C4, as the code has it: \<^verbatim>\<open>addTask\<close> never looks for the id in the collection; the id
  is the decimal string of the clock reading. A run of \<^verbatim>\<open>addTask\<close> commands whose clock
  readings are pairwise different, on a collection with pairwise different ids none of which
  is the string of one of these readings, ends with pairwise different ids. There is no
  duplicate-id failure: whenever the schema accepts the new task and the write succeeds, the
  command succeeds and the task is appended, whatever ids the collection holds.
\<close>

theorem adds_distinct_ids:
  assumes "db_tasks db = Some ts"
    and "distinct (map task_id ts)"
    and "distinct (map fst adds)"
    and "\<forall>n\<in>set (map fst adds). toString n \<notin> set (map task_id ts)"
  shows "(\<exists>ts'. db_tasks (mainMenu D (map (\<lambda>(n, c, a, ok). Act_add n c a ok) adds) db) = Some ts'
            \<and> distinct (map task_id ts'))
       \<and> (\<forall>now created a.
             taskSchema_issues D \<lparr>task_id = toString now, title = ans_title a,
                 description = ans_description a, dueDate = ans_dueDate a,
                 createdAt = created, priority = ans_priority a, completed = False\<rparr> = [] \<longrightarrow>
             fst (addTask D now created a True db) = Succeed TaskAdded
             \<and> db_tasks (snd (addTask D now created a True db))
                 = Some (ts @ [\<lparr>task_id = toString now, title = ans_title a,
                       description = ans_description a, dueDate = ans_dueDate a,
                       createdAt = created, priority = ans_priority a, completed = False\<rparr>]))"
proof -
  have "\<exists>ts'. db_tasks (mainMenu D (map (\<lambda>(n, c, a, ok). Act_add n c a ok) adds) db) = Some ts'
            \<and> distinct (map task_id ts')"
    using assms by (rule mainMenu_adds_distinct)
  moreover have "fst (addTask D now created a True db) = Succeed TaskAdded
             \<and> db_tasks (snd (addTask D now created a True db))
                 = Some (ts @ [\<lparr>task_id = toString now, title = ans_title a,
                       description = ans_description a, dueDate = ans_dueDate a,
                       createdAt = created, priority = ans_priority a, completed = False\<rparr>])"
    if "taskSchema_issues D \<lparr>task_id = toString now, title = ans_title a,
                 description = ans_description a, dueDate = ans_dueDate a,
                 createdAt = created, priority = ans_priority a, completed = False\<rparr> = []"
    for now created a
    using that assms(1) by (simp add: addTask_run [OF assms(1)] Let_def db_tasks_set_tasks)
  ultimately show ?thesis by blast
qed

theorem adds_distinct_ids_witness:
  "db_tasks (store_of [eggs]) = Some [eggs]
   \<and> distinct (map task_id [eggs])
   \<and> distinct (map fst [(1704067200000 :: int, ''2024-01-01'', milk_answers, True),
                          (1704067200001, ''2024-01-02'', milk_answers, False)])
   \<and> (\<exists>ts'. db_tasks (mainMenu sample_dayjs
                 (map (\<lambda>(n, c, a, ok). Act_add n c a ok)
                    [(1704067200000, ''2024-01-01'', milk_answers, True),
                     (1704067200001, ''2024-01-02'', milk_answers, False)])
                 (store_of [eggs])) = Some ts'
          \<and> distinct (map task_id ts'))
   \<and> fst (addTask sample_dayjs 1704067200002 ''2024-01-01'' milk_answers True (store_of [eggs]))
       = Succeed TaskAdded"
proof -
  let ?adds = "[(1704067200000::int, ''2024-01-01'', milk_answers, True),
                (1704067200001, ''2024-01-02'', milk_answers, False)]"
  have h: "db_tasks (store_of [eggs]) = Some [eggs]"
    by (simp add: run_defs sample_defs)
  have d: "distinct (map task_id [eggs])" by simp
  have e: "distinct (map fst ?adds)" by simp
  have f: "\<forall>n\<in>set (map fst ?adds). toString n \<notin> set (map task_id [eggs])"
    by (simp add: toString_def digits.simps digit_def sample_defs)
  have v: "taskSchema_issues sample_dayjs \<lparr>task_id = toString 1704067200002,
      title = ans_title milk_answers, description = ans_description milk_answers,
      dueDate = ans_dueDate milk_answers, createdAt = ''2024-01-01'',
      priority = ans_priority milk_answers, completed = False\<rparr> = []"
    by (simp add: taskSchema_issues_def isValid_def sample_defs)
  note k = adds_distinct_ids [OF h d e f, of sample_dayjs]
  from k [THEN conjunct2, rule_format, OF v]
  have s: "fst (addTask sample_dayjs 1704067200002 ''2024-01-01'' milk_answers True
                 (store_of [eggs])) = Succeed TaskAdded"
    by simp
  from k [THEN conjunct1] s h d e show ?thesis by simp
qed

text \<open>
  The claim as written holds for every sequence of additions and has a second task with a
  stored id refused. Two additions at the same clock reading both succeed and leave two
  tasks with one id.
\<close>

theorem adds_same_clock_counterexample:
  "mainMenu sample_dayjs
     [Act_add 1704067200000 ''2024-01-01'' milk_answers True,
      Act_add 1704067200000 ''2024-01-01'' milk_answers True] (store_of [])
     = store_of [milk, milk]
   \<and> \<not> distinct (map task_id [milk, milk])
   \<and> find (\<lambda>t. task_id t = toString 1704067200000) [milk] = Some milk
   \<and> addTask sample_dayjs 1704067200000 ''2024-01-01'' milk_answers True (store_of [milk])
       = (Succeed TaskAdded, store_of [milk, milk])"
  by (simp add: addTask_def run_defs sample_defs)

section \<open>Listing\<close>

lemma mset_sort_insert: "mset (sort_insert cmp x ys) = add_mset x (mset ys)"
  by (induction ys) simp_all

lemma set_sort_insert: "set (sort_insert cmp x ys) = insert x (set ys)"
  by (induction ys) auto

lemma array_sort_snoc: "array_sort cmp (xs @ [x]) = sort_insert cmp x (array_sort cmp xs)"
  by (simp add: array_sort_def)

lemma mset_array_sort: "mset (array_sort cmp xs) = mset xs"
proof (induction xs rule: rev_induct)
  case Nil
  show ?case by (simp add: array_sort_def)
next
  case (snoc x xs)
  then show ?case by (simp add: array_sort_snoc mset_sort_insert)
qed

lemma set_array_sort: "set (array_sort cmp xs) = set xs"
  using mset_array_sort [of cmp xs] by (metis set_mset_mset)

text \<open>
  On a set \<open>A\<close> of elements where a negative answer of the comparator means a smaller key,
  insertion keeps a sorted list sorted and puts the new element behind those of its key.
\<close>

lemma sorted_sort_insert:
  assumes "\<forall>a\<in>A. \<forall>b\<in>A. (cmp a b < 0) = (k a < k b)"
    and "x \<in> A" and "set ys \<subseteq> A" and "sorted (map k ys)"
  shows "sorted (map k (sort_insert cmp x ys))"
  using assms(3,4)
proof (induction ys)
  case Nil
  show ?case by simp
next
  case (Cons y ys)
  from Cons.prems have y: "y \<in> A" and sub: "set ys \<subseteq> A" and s: "sorted (map k ys)"
    and le: "\<forall>z\<in>set ys. k y \<le> k z"
    by auto
  show ?case
  proof (cases "cmp x y < 0")
    case True
    with assms(1,2) y have "k x < k y" by blast
    with le Cons.prems(2) True show ?thesis by auto
  next
    case False
    with assms(1,2) y have "k y \<le> k x" by auto
    with le Cons.IH [OF sub s] False show ?thesis
      by (auto simp add: set_sort_insert)
  qed
qed

lemma filter_sort_insert:
  assumes "\<forall>a\<in>A. \<forall>b\<in>A. (cmp a b < 0) = (k a < k b)"
    and "x \<in> A" and "set ys \<subseteq> A" and "sorted (map k ys)"
  shows "filter (\<lambda>t. k t = c) (sort_insert cmp x ys)
           = filter (\<lambda>t. k t = c) ys @ (if k x = c then [x] else [])"
  using assms(3,4)
proof (induction ys)
  case Nil
  show ?case by simp
next
  case (Cons y ys)
  from Cons.prems have y: "y \<in> A" and sub: "set ys \<subseteq> A" and s: "sorted (map k ys)"
    and le: "\<forall>z\<in>set ys. k y \<le> k z"
    by auto
  show ?case
  proof (cases "cmp x y < 0")
    case True
    with assms(1,2) y have lt: "k x < k y" by blast
    with le have "\<forall>z\<in>set (y # ys). k z \<noteq> k x" by auto
    then have "k x = c \<Longrightarrow> filter (\<lambda>t. k t = c) (y # ys) = []"
      by (auto simp add: filter_empty_conv)
    with True show ?thesis by auto
  next
    case False
    with Cons.IH [OF sub s] show ?thesis by simp
  qed
qed

lemma array_sort_sorted_stable:
  assumes "\<forall>a\<in>A. \<forall>b\<in>A. (cmp a b < 0) = (k a < k b)" and "set xs \<subseteq> A"
  shows "sorted (map k (array_sort cmp xs))
       \<and> filter (\<lambda>t. k t = c) (array_sort cmp xs) = filter (\<lambda>t. k t = c) xs"
  using assms(2)
proof (induction xs rule: rev_induct)
  case Nil
  show ?case by (simp add: array_sort_def)
next
  case (snoc x xs)
  from snoc.prems have x: "x \<in> A" and sub: "set xs \<subseteq> A" by simp_all
  from snoc.IH [OF sub] have s: "sorted (map k (array_sort cmp xs))"
    and f: "filter (\<lambda>t. k t = c) (array_sort cmp xs) = filter (\<lambda>t. k t = c) xs"
    by simp_all
  from sub have sub': "set (array_sort cmp xs) \<subseteq> A" by (simp add: set_array_sort)
  from sorted_sort_insert [OF assms(1) x sub' s] filter_sort_insert [OF assms(1) x sub' s, of c] f
  show ?case by (simp add: array_sort_snoc)
qed

lemma date_sort:
  fixes f :: "task \<Rightarrow> string"
  assumes "\<forall>t\<in>set xs. isValid D (f t)"
  shows "mset (array_sort (\<lambda>a b. if isBefore D (f a) (f b) then - 1 else 1) xs) = mset xs
       \<and> sorted_wrt (\<lambda>a b. \<not> isBefore D (f b) (f a))
            (array_sort (\<lambda>a b. if isBefore D (f a) (f b) then - 1 else 1) xs)
       \<and> (\<forall>d. filter (\<lambda>t. D (f t) = d)
                 (array_sort (\<lambda>a b. if isBefore D (f a) (f b) then - 1 else 1) xs)
               = filter (\<lambda>t. D (f t) = d) xs)"
proof -
  let ?cmp = "\<lambda>a b. if isBefore D (f a) (f b) then - 1 else (1 :: rat)"
  let ?k = "\<lambda>t. the (D (f t))"
  let ?A = "{t. isValid D (f t)}"
  let ?ys = "array_sort ?cmp xs"
  have rel: "\<forall>a\<in>?A. \<forall>b\<in>?A. (?cmp a b < 0) = (?k a < ?k b)"
    by (auto simp add: isBefore_def isValid_def)
  have sub: "set xs \<subseteq> ?A" using assms by auto
  have set_ys: "set ?ys = set xs" by (rule set_array_sort)
  note st = array_sort_sorted_stable [OF rel sub]
  from st have "sorted_wrt (\<lambda>a b. ?k a \<le> ?k b) ?ys" by (simp add: sorted_map)
  moreover have "\<not> isBefore D (f b) (f a)" if "a \<in> set ?ys" and "b \<in> set ?ys" and "?k a \<le> ?k b"
    for a b
  proof -
    from that(1,2) set_ys sub have "a \<in> ?A" "b \<in> ?A" by auto
    with that(3) show ?thesis by (auto simp add: isBefore_def isValid_def)
  qed
  ultimately have sorted: "sorted_wrt (\<lambda>a b. \<not> isBefore D (f b) (f a)) ?ys"
    by (rule sorted_wrt_mono_rel [rotated])
  have stable: "filter (\<lambda>t. D (f t) = d) ?ys = filter (\<lambda>t. D (f t) = d) xs" for d
  proof (cases d)
    case None
    have "filter (\<lambda>t. D (f t) = None) ?ys = []" "filter (\<lambda>t. D (f t) = None) xs = []"
      using sub set_ys by (auto simp add: filter_empty_conv isValid_def)
    with None show ?thesis by simp
  next
    case (Some c)
    have "filter (\<lambda>t. D (f t) = Some c) ?ys = filter (\<lambda>t. ?k t = c) ?ys"
      using sub set_ys by (intro filter_cong) (auto simp add: isValid_def)
    also from st have "\<dots> = filter (\<lambda>t. ?k t = c) xs" by simp
    also have "\<dots> = filter (\<lambda>t. D (f t) = Some c) xs"
      using sub by (intro filter_cong) (auto simp add: isValid_def)
    finally show ?thesis using Some by simp
  qed
  from mset_array_sort [of ?cmp xs] sorted stable show ?thesis by blast
qed

text \<open>
  Claim C5: for a collection that is not empty and whose due dates and creation dates all
  parse, the rows \<^verbatim>\<open>listTasks\<close> shows when sorting by due date are the tasks to display,
  rearranged so that no row's due date is before that of a row above it, and for every date
  the rows with that date are in the order the collection has them; the same for the creation
  date. (The comparator never answers \<open>0\<close>; the order of equal dates comes from the engine's
  sort asking about the later element first.)
\<close>

theorem listTasks_by_date_sorted_stable:
  assumes "db_tasks db = Some ts" and "ts \<noteq> []"
    and "\<forall>t\<in>set ts. isValid D (dueDate t) \<and> isValid D (createdAt t)"
  shows "(\<exists>rows. listTasks D SortDueDate showCompleted db = Inr (Table rows)
            \<and> mset rows = mset (if showCompleted then ts else filter (\<lambda>t. \<not> completed t) ts)
            \<and> sorted_wrt (\<lambda>a b. \<not> isBefore D (dueDate b) (dueDate a)) rows
            \<and> (\<forall>d. filter (\<lambda>t. D (dueDate t) = d) rows
                  = filter (\<lambda>t. D (dueDate t) = d)
                      (if showCompleted then ts else filter (\<lambda>t. \<not> completed t) ts)))
       \<and> (\<exists>rows. listTasks D SortCreatedAt showCompleted db = Inr (Table rows)
            \<and> mset rows = mset (if showCompleted then ts else filter (\<lambda>t. \<not> completed t) ts)
            \<and> sorted_wrt (\<lambda>a b. \<not> isBefore D (createdAt b) (createdAt a)) rows
            \<and> (\<forall>d. filter (\<lambda>t. D (createdAt t) = d) rows
                  = filter (\<lambda>t. D (createdAt t) = d)
                      (if showCompleted then ts else filter (\<lambda>t. \<not> completed t) ts)))"
proof -
  let ?shown = "if showCompleted then ts else filter (\<lambda>t. \<not> completed t) ts"
  have c1: "compareTasks D SortDueDate
              = (\<lambda>a b. if isBefore D (dueDate a) (dueDate b) then - 1 else 1)"
    and c2: "compareTasks D SortCreatedAt
              = (\<lambda>a b. if isBefore D (createdAt a) (createdAt b) then - 1 else 1)"
    by (simp_all add: compareTasks_def fun_eq_iff)
  have l: "listTasks D sb showCompleted db = Inr (Table (array_sort (compareTasks D sb) ?shown))"
    for sb
    using assms(1,2) by (simp add: listTasks_def)
  have v1: "\<forall>t\<in>set ?shown. isValid D (dueDate t)"
    and v2: "\<forall>t\<in>set ?shown. isValid D (createdAt t)"
    using assms(3) by auto
  from date_sort [OF v1] date_sort [OF v2] show ?thesis
    unfolding l c1 c2 by blast
qed

theorem listTasks_by_date_sorted_stable_witness:
  "db_tasks (store_of [eggs, milk, bread]) = Some [eggs, milk, bread]
   \<and> [eggs, milk, bread] \<noteq> []
   \<and> isValid sample_dayjs (dueDate eggs) \<and> isValid sample_dayjs (createdAt eggs)
   \<and> isValid sample_dayjs (dueDate milk) \<and> isValid sample_dayjs (createdAt milk)
   \<and> isValid sample_dayjs (dueDate bread) \<and> isValid sample_dayjs (createdAt bread)
   \<and> listTasks sample_dayjs SortDueDate True (store_of [eggs, milk, bread])
       = Inr (Table [milk, bread, eggs])
   \<and> sorted_wrt (\<lambda>a b. \<not> isBefore sample_dayjs (dueDate b) (dueDate a)) [milk, bread, eggs]
   \<and> filter (\<lambda>t. sample_dayjs (dueDate t) = sample_dayjs ''2024-01-01'') [milk, bread, eggs]
       = filter (\<lambda>t. sample_dayjs (dueDate t) = sample_dayjs ''2024-01-01'') [eggs, milk, bread]"
proof -
  have h: "db_tasks (store_of [eggs, milk, bread]) = Some [eggs, milk, bread]"
    by (simp add: run_defs sample_defs)
  have ne: "[eggs, milk, bread] \<noteq> []" by simp
  have v: "\<forall>t\<in>set [eggs, milk, bread].
             isValid sample_dayjs (dueDate t) \<and> isValid sample_dayjs (createdAt t)"
    by (simp add: isValid_def sample_defs)
  have l: "listTasks sample_dayjs SortDueDate True (store_of [eggs, milk, bread])
             = Inr (Table [milk, bread, eggs])"
    by (simp add: listTasks_def compareTasks_def array_sort_def isBefore_def run_defs sample_defs)
  from listTasks_by_date_sorted_stable [OF h ne v, of True, THEN conjunct1] l
  have "sorted_wrt (\<lambda>a b. \<not> isBefore sample_dayjs (dueDate b) (dueDate a)) [milk, bread, eggs]"
    and "\<forall>d. filter (\<lambda>t. sample_dayjs (dueDate t) = d) [milk, bread, eggs]
           = filter (\<lambda>t. sample_dayjs (dueDate t) = d) [eggs, milk, bread]"
    by simp_all
  moreover from v have "isValid sample_dayjs (dueDate eggs) \<and> isValid sample_dayjs (createdAt eggs)
      \<and> isValid sample_dayjs (dueDate milk) \<and> isValid sample_dayjs (createdAt milk)
      \<and> isValid sample_dayjs (dueDate bread) \<and> isValid sample_dayjs (createdAt bread)"
    by simp
  ultimately show ?thesis using h ne l by blast
qed

section \<open>Completing\<close>

lemma markComplete_leaves_completed:
  assumes "db_tasks db = Some ts" and "find (\<lambda>t. task_id t = taskId) ts = Some t"
  shows "\<exists>ts1 t1. db_tasks (snd (markComplete taskId ok db)) = Some ts1
           \<and> find (\<lambda>t. task_id t = taskId) ts1 = Some t1 \<and> completed t1"
proof (cases "filter (\<lambda>t. \<not> completed t) ts = []")
  case True
  then have "\<forall>x\<in>set ts. completed x" by (simp add: filter_empty_conv)
  with find_Some_holds [OF assms(2)] have "completed t" by simp
  moreover have "snd (markComplete taskId ok db) = db"
    by (simp add: markComplete_run [OF assms(1)] True)
  ultimately show ?thesis using assms by simp
next
  case False
  let ?P = "\<lambda>t. task_id t = taskId"
  let ?ts1 = "ts[nat (findIndex ?P ts) := t\<lparr>completed := True\<rparr>]"
  from find_Some_holds [OF assms(2)] have "?P (t\<lparr>completed := True\<rparr>)" by simp
  with assms(2) have f: "find ?P ?ts1 = Some (t\<lparr>completed := True\<rparr>)"
    by (rule find_update_first)
  have "db_tasks (snd (markComplete taskId ok db)) = Some ?ts1"
    using assms(1) by (cases ok)
      (simp_all add: markComplete_run [OF assms(1)] assms(2) False Let_def db_tasks_set_tasks)
  with f show ?thesis by simp
qed

lemma markComplete_fails_iff:
  assumes "db_tasks db = Some ts" and "filter (\<lambda>t. \<not> completed t) ts \<noteq> []"
  shows "(\<exists>e. fst (markComplete taskId True db) = Fail e)
           = (find (\<lambda>t. task_id t = taskId) ts = None)"
    and "find (\<lambda>t. task_id t = taskId) ts = None \<Longrightarrow>
           markComplete taskId ok db = (Fail TypeError, db)"
    and "find (\<lambda>t. task_id t = taskId) ts \<noteq> None \<Longrightarrow>
           fst (markComplete taskId True db) = Succeed TaskCompleted"
  using assms(2)
  by (auto simp add: markComplete_run [OF assms(1)] Let_def split: option.splits)

lemma markComplete_succeeds_iff:
  assumes "db_tasks db = Some ts" and "find (\<lambda>t. task_id t = taskId) ts = Some t"
  shows "(fst (markComplete taskId True db) = Succeed TaskCompleted)
           = (filter (\<lambda>t. \<not> completed t) ts \<noteq> [])"
  using assms(2) by (simp add: markComplete_run [OF assms(1)] Let_def)

text \<open>
  Claim C6, as the code has it: \<^verbatim>\<open>markComplete\<close> has no not-found error of its own. When no
  task of the collection is incomplete it returns with the notice
  \<^verbatim>\<open>No incomplete tasks available.\<close> and changes nothing, whatever the id. Otherwise it
  fails exactly when no task has the id (the TypeError of \<^verbatim>\<open>tasks[-1].completed\<close>, caught and
  reported), and when a task has the id, completed or not, it succeeds if the write does.
  After a call on an id that a task has, the first task with that id is completed, and so it
  is after a second call; the second call succeeds (write permitting) exactly when the
  collection still has an incomplete task, else it returns the notice.
\<close>

theorem markComplete_outcomes:
  assumes "db_tasks db = Some ts"
  shows "(filter (\<lambda>t. \<not> completed t) ts = [] \<longrightarrow>
            markComplete taskId ok db = (Notice NoIncompleteTasks, db))
       \<and> (filter (\<lambda>t. \<not> completed t) ts \<noteq> [] \<longrightarrow>
            ((\<exists>e. fst (markComplete taskId True db) = Fail e)
               = (find (\<lambda>t. task_id t = taskId) ts = None))
            \<and> (find (\<lambda>t. task_id t = taskId) ts = None \<longrightarrow>
                 markComplete taskId ok db = (Fail TypeError, db))
            \<and> (find (\<lambda>t. task_id t = taskId) ts \<noteq> None \<longrightarrow>
                 fst (markComplete taskId True db) = Succeed TaskCompleted))
       \<and> (find (\<lambda>t. task_id t = taskId) ts \<noteq> None \<longrightarrow>
            (\<exists>ts1 t1. db_tasks (snd (markComplete taskId ok db)) = Some ts1
               \<and> find (\<lambda>t. task_id t = taskId) ts1 = Some t1 \<and> completed t1
               \<and> (fst (markComplete taskId True (snd (markComplete taskId ok db)))
                     = Succeed TaskCompleted) = (filter (\<lambda>t. \<not> completed t) ts1 \<noteq> []))
            \<and> (\<exists>ts2 t2. db_tasks (snd (markComplete taskId ok2
                                         (snd (markComplete taskId ok db)))) = Some ts2
               \<and> find (\<lambda>t. task_id t = taskId) ts2 = Some t2 \<and> completed t2))"
proof -
  let ?P = "\<lambda>t. task_id t = taskId"
  let ?db1 = "snd (markComplete taskId ok db)"
  have none: "filter (\<lambda>t. \<not> completed t) ts = [] \<Longrightarrow>
      markComplete taskId ok db = (Notice NoIncompleteTasks, db)"
    by (simp add: markComplete_run [OF assms])
  have twice: "(\<exists>ts1 t1. db_tasks ?db1 = Some ts1 \<and> find ?P ts1 = Some t1 \<and> completed t1
               \<and> (fst (markComplete taskId True ?db1) = Succeed TaskCompleted)
                   = (filter (\<lambda>t. \<not> completed t) ts1 \<noteq> []))
            \<and> (\<exists>ts2 t2. db_tasks (snd (markComplete taskId ok2 ?db1)) = Some ts2
               \<and> find ?P ts2 = Some t2 \<and> completed t2)"
    if "find ?P ts \<noteq> None"
  proof -
    from that obtain t where t: "find ?P ts = Some t" by blast
    from markComplete_leaves_completed [OF assms t, of ok]
    obtain ts1 t1 where a: "db_tasks ?db1 = Some ts1" and b: "find ?P ts1 = Some t1"
      and c: "completed t1" by blast
    from markComplete_leaves_completed [OF a b, of ok2]
    have d: "\<exists>ts2 t2. db_tasks (snd (markComplete taskId ok2 ?db1)) = Some ts2
               \<and> find ?P ts2 = Some t2 \<and> completed t2" .
    from markComplete_succeeds_iff [OF a b] a b c d show ?thesis by blast
  qed
  have some: "((\<exists>e. fst (markComplete taskId True db) = Fail e) = (find ?P ts = None))
      \<and> (find ?P ts = None \<longrightarrow> markComplete taskId ok db = (Fail TypeError, db))
      \<and> (find ?P ts \<noteq> None \<longrightarrow> fst (markComplete taskId True db) = Succeed TaskCompleted)"
    if "filter (\<lambda>t. \<not> completed t) ts \<noteq> []"
    using markComplete_fails_iff [OF assms that] by blast
  from none twice some show ?thesis by blast
qed

theorem markComplete_outcomes_witness:
  "db_tasks (store_of [milk, bread]) = Some [milk, bread]
   \<and> filter (\<lambda>t. \<not> completed t) [milk, bread] \<noteq> []
   \<and> find (\<lambda>t. task_id t = ''42'') [milk, bread] = None
   \<and> markComplete ''42'' True (store_of [milk, bread]) = (Fail TypeError, store_of [milk, bread])
   \<and> find (\<lambda>t. task_id t = ''1704067200001'') [milk, bread] \<noteq> None
   \<and> fst (markComplete ''1704067200001'' True (store_of [milk, bread])) = Succeed TaskCompleted
   \<and> (\<exists>ts2 t2. db_tasks (snd (markComplete ''1704067200001'' True
                     (snd (markComplete ''1704067200001'' True (store_of [milk, bread])))))
                  = Some ts2
          \<and> find (\<lambda>t. task_id t = ''1704067200001'') ts2 = Some t2 \<and> completed t2)
   \<and> db_tasks (store_of [bread]) = Some [bread]
   \<and> filter (\<lambda>t. \<not> completed t) [bread] = []
   \<and> markComplete ''1704067200001'' True (store_of [bread])
       = (Notice NoIncompleteTasks, store_of [bread])"
proof -
  have h: "db_tasks (store_of [milk, bread]) = Some [milk, bread]"
    and h': "db_tasks (store_of [bread]) = Some [bread]"
    by (simp_all add: run_defs sample_defs)
  have f: "filter (\<lambda>t. \<not> completed t) [milk, bread] \<noteq> []"
    and f': "filter (\<lambda>t. \<not> completed t) [bread] = []"
    and a: "find (\<lambda>t. task_id t = ''42'') [milk, bread] = None"
    and p: "find (\<lambda>t. task_id t = ''1704067200001'') [milk, bread] \<noteq> None"
    by (simp_all add: sample_defs)
  from markComplete_outcomes [OF h, of "''42''" True True] f a
  have 1: "markComplete ''42'' True (store_of [milk, bread])
             = (Fail TypeError, store_of [milk, bread])"
    by blast
  from markComplete_outcomes [OF h, of "''1704067200001''" True True] f p
  have 2: "fst (markComplete ''1704067200001'' True (store_of [milk, bread]))
             = Succeed TaskCompleted"
    and 3: "\<exists>ts2 t2. db_tasks (snd (markComplete ''1704067200001'' True
                     (snd (markComplete ''1704067200001'' True (store_of [milk, bread])))))
                  = Some ts2
          \<and> find (\<lambda>t. task_id t = ''1704067200001'') ts2 = Some t2 \<and> completed t2"
    by blast+
  from markComplete_outcomes [OF h', of "''1704067200001''" True True] f'
  have 4: "markComplete ''1704067200001'' True (store_of [bread])
             = (Notice NoIncompleteTasks, store_of [bread])"
    by blast
  from h h' f f' a p 1 2 3 4 show ?thesis by blast
qed

text \<open>
  The claim as written has the second of two calls succeed, and a failure for every absent
  id. With a single task, the second call finds nothing incomplete and returns the notice;
  on a collection of completed tasks an absent id gets the notice too, not a failure.
\<close>

theorem markComplete_twice_counterexample:
  "find (\<lambda>t. task_id t = ''1704067200000'') [milk] = Some milk
   \<and> markComplete ''1704067200000'' True (store_of [milk])
       = (Succeed TaskCompleted, store_of [milk\<lparr>completed := True\<rparr>])
   \<and> markComplete ''1704067200000'' True (store_of [milk\<lparr>completed := True\<rparr>])
       = (Notice NoIncompleteTasks, store_of [milk\<lparr>completed := True\<rparr>])
   \<and> find (\<lambda>t. task_id t = ''42'') [bread] = None
   \<and> markComplete ''42'' True (store_of [bread]) = (Notice NoIncompleteTasks, store_of [bread])"
  by (simp add: markComplete_def run_defs sample_defs)

section \<open>Updating\<close>

text \<open>
  Claim C7: when \<^verbatim>\<open>updateTask\<close> succeeds on a stored task, the task stored in its place,
  at the same index, and the one \<^verbatim>\<open>find\<close> returns for the id afterwards, has the id and the
  \<^verbatim>\<open>createdAt\<close> it had; it is the old task with \<^verbatim>\<open>title\<close>, \<^verbatim>\<open>description\<close>, \<^verbatim>\<open>dueDate\<close> and
  \<^verbatim>\<open>priority\<close> replaced by the answers.
\<close>

theorem updateTask_keeps_id_createdAt:
  assumes "db_tasks db = Some ts"
    and "find (\<lambda>t. task_id t = taskId) ts = Some t"
    and "updateTask D taskId a ok db = (Succeed TaskUpdated, db')"
  shows "\<exists>t'. db_tasks db' = Some (ts[nat (findIndex (\<lambda>t. task_id t = taskId) ts) := t'])
           \<and> find (\<lambda>t. task_id t = taskId)
                (ts[nat (findIndex (\<lambda>t. task_id t = taskId) ts) := t']) = Some t'
           \<and> task_id t' = task_id t \<and> createdAt t' = createdAt t
           \<and> t' = t\<lparr>title := ans_title a, description := ans_description a,
                     dueDate := ans_dueDate a, priority := ans_priority a\<rparr>"
proof -
  let ?P = "\<lambda>t. task_id t = taskId"
  let ?u = "t\<lparr>title := ans_title a, description := ans_description a,
               dueDate := ans_dueDate a, priority := ans_priority a\<rparr>"
  let ?ts' = "ts[nat (findIndex ?P ts) := ?u]"
  from find_Some_holds [OF assms(2)] have "?P ?u" by simp
  with assms(2) have f: "find ?P ?ts' = Some ?u" by (rule find_update_first)
  from assms(3) have "db' = (set_tasks ?ts' db)\<lparr>json_file := data (set_tasks ?ts' db)\<rparr>"
    by (simp add: updateTask_run [OF assms(1,2)] Let_def split: if_splits)
  then have "db_tasks db' = Some ?ts'"
    using assms(1) by (simp add: db_tasks_set_tasks)
  with f show ?thesis by simp
qed

theorem updateTask_keeps_id_createdAt_witness:
  "db_tasks (store_of [milk, bread]) = Some [milk, bread]
   \<and> find (\<lambda>t. task_id t = ''1704067200001'') [milk, bread] = Some bread
   \<and> updateTask sample_dayjs ''1704067200001'' milk_answers True (store_of [milk, bread])
       = (Succeed TaskUpdated, store_of [milk, bread\<lparr>title := ''Buy milk'', description := [],
                                          dueDate := ''2024-01-01'', priority := 2\<rparr>])
   \<and> (\<exists>t'. find (\<lambda>t. task_id t = ''1704067200001'')
               ([milk, bread][nat (findIndex (\<lambda>t. task_id t = ''1704067200001'') [milk, bread]) := t'])
               = Some t'
           \<and> task_id t' = task_id bread \<and> createdAt t' = createdAt bread)"
proof -
  have h: "db_tasks (store_of [milk, bread]) = Some [milk, bread]"
    by (simp add: run_defs sample_defs)
  have f: "find (\<lambda>t. task_id t = ''1704067200001'') [milk, bread] = Some bread"
    by (simp add: sample_defs)
  have u: "updateTask sample_dayjs ''1704067200001'' milk_answers True (store_of [milk, bread])
       = (Succeed TaskUpdated, store_of [milk, bread\<lparr>title := ''Buy milk'', description := [],
                                          dueDate := ''2024-01-01'', priority := 2\<rparr>])"
    by (simp add: updateTask_def run_defs sample_defs)
  from updateTask_keeps_id_createdAt [OF h f u] h f u show ?thesis by blast
qed

section \<open>Clearing completed tasks\<close>

text \<open>
  Claim C8, as the code has it: after a confirmed \<^verbatim>\<open>clearCompleted\<close> no task of the
  collection is completed. When at least one task was completed, the count in the success
  message (shown when the write succeeds) is the number of tasks that were completed, and the
  collection is the incomplete tasks in their order. When none was completed, the command
  returns early with the notice \<^verbatim>\<open>No completed tasks to clear.\<close>, reports no count and changes
  nothing.
\<close>

theorem clearCompleted_count:
  assumes "db_tasks db = Some ts"
  shows "(\<exists>ts'. db_tasks (snd (clearCompleted True ok db)) = Some ts'
            \<and> (\<forall>t\<in>set ts'. \<not> completed t))
         \<and> (filter (\<lambda>t. completed t) ts \<noteq> [] \<longrightarrow>
              fst (clearCompleted True True db)
                = Succeed (Cleared (length (filter (\<lambda>t. completed t) ts)))
              \<and> db_tasks (snd (clearCompleted True ok db))
                  = Some (filter (\<lambda>t. \<not> completed t) ts))
         \<and> (filter (\<lambda>t. completed t) ts = [] \<longrightarrow>
              clearCompleted confirm ok db = (Notice NoCompletedTasks, db))"
proof -
  let ?keep = "filter (\<lambda>t. \<not> completed t) ts"
  let ?r = "clearCompleted True ok db"
  have t2: "db_tasks (set_tasks ?keep db) = Some ?keep"
    using assms by (rule db_tasks_set_tasks)
  have none: "filter (\<lambda>t. completed t) ts = [] \<Longrightarrow> clearCompleted confirm ok db = (Notice NoCompletedTasks, db)"
    by (simp add: clearCompleted_run [OF assms])
  have some: "filter (\<lambda>t. completed t) ts \<noteq> [] \<Longrightarrow> db_tasks (snd ?r) = Some ?keep"
    using t2 by (cases ok) (simp_all add: clearCompleted_run [OF assms] Let_def)
  have count: "filter (\<lambda>t. completed t) ts \<noteq> [] \<Longrightarrow>
      fst (clearCompleted True True db) = Succeed (Cleared (length (filter (\<lambda>t. completed t) ts)))"
    by (simp add: clearCompleted_run [OF assms] Let_def)
  have clean: "\<exists>ts'. db_tasks (snd ?r) = Some ts' \<and> (\<forall>t\<in>set ts'. \<not> completed t)"
  proof (cases "filter (\<lambda>t. completed t) ts = []")
    case True
    then have "\<forall>t\<in>set ts. \<not> completed t" by (simp add: filter_empty_conv)
    moreover have "snd ?r = db"
      by (simp add: clearCompleted_run [OF assms] True)
    ultimately show ?thesis using assms by simp
  next
    case False
    from some [OF False] show ?thesis by simp
  qed
  from none some count clean show ?thesis by blast
qed

theorem clearCompleted_count_witness:
  "db_tasks (store_of [milk, bread]) = Some [milk, bread]
   \<and> filter (\<lambda>t. completed t) [milk, bread] \<noteq> []
   \<and> fst (clearCompleted True True (store_of [milk, bread])) = Succeed (Cleared 1)
   \<and> db_tasks (snd (clearCompleted True True (store_of [milk, bread]))) = Some [milk]
   \<and> db_tasks (store_of [milk]) = Some [milk]
   \<and> filter (\<lambda>t. completed t) [milk] = []
   \<and> clearCompleted True True (store_of [milk]) = (Notice NoCompletedTasks, store_of [milk])"
proof -
  have h: "db_tasks (store_of [milk, bread]) = Some [milk, bread]"
    by (simp add: run_defs sample_defs)
  have h': "db_tasks (store_of [milk]) = Some [milk]"
    by (simp add: run_defs sample_defs)
  have f: "filter (\<lambda>t. completed t) [milk, bread] = [bread]"
    and f': "filter (\<lambda>t. completed t) [milk] = []"
    and k: "filter (\<lambda>t. \<not> completed t) [milk, bread] = [milk]"
    by (simp_all add: sample_defs)
  show ?thesis
    using h h' f f' k clearCompleted_count [OF h, of True True]
      clearCompleted_count [OF h', of True True]
    by simp
qed

text \<open>
  The claim as written has a count of zero returned when nothing is completed; the early
  return gives the notice instead of a success with a count.
\<close>

theorem clearCompleted_nothing_counterexample:
  "filter (\<lambda>t. completed t) [milk] = []
   \<and> clearCompleted True True (store_of [milk]) = (Notice NoCompletedTasks, store_of [milk])
   \<and> fst (clearCompleted True True (store_of [milk])) \<noteq> Succeed (Cleared 0)"
  by (simp add: clearCompleted_def run_defs sample_defs)

section \<open>Loading the store\<close>

text \<open>
  Claim C9, as the code has it: when the write \<^verbatim>\<open>initializeDB\<close> ends with succeeds, then
  without a persisted document, or with one whose \<^verbatim>\<open>tasks\<close> field is an empty array, the
  store has an empty collection, and with a document that has no \<^verbatim>\<open>tasks\<close> field
  \<^verbatim>\<open>initializeDB\<close> succeeds too and keeps the document as it is, so the store has no
  collection at all. When that write is refused, \<^verbatim>\<open>initializeDB\<close> fails with the write
  error, whatever the document.
\<close>

theorem initializeDB_collection:
  "(json_file db = None \<or> json_file db = Some \<lparr>tasks = Some []\<rparr> \<longrightarrow>
      (\<exists>db'. initializeDB True db = Inr db' \<and> db_tasks db' = Some []))
   \<and> (json_file db = Some \<lparr>tasks = None\<rparr> \<longrightarrow>
      (\<exists>db'. initializeDB True db = Inr db' \<and> db_tasks db' = None))
   \<and> initializeDB False db = Inl WriteError"
proof -
  have f: "initializeDB False db = Inl WriteError"
    by (cases "json_file db") (simp_all add: initializeDB_def db_read_def db_write_def)
  have e: "json_file db = None \<or> json_file db = Some \<lparr>tasks = Some []\<rparr> \<Longrightarrow>
      \<exists>db'. initializeDB True db = Inr db' \<and> db_tasks db' = Some []"
    by (auto simp add: initializeDB_def db_read_def db_write_def db_tasks_def)
  have m: "json_file db = Some \<lparr>tasks = None\<rparr> \<Longrightarrow>
      \<exists>db'. initializeDB True db = Inr db' \<and> db_tasks db' = None"
    by (auto simp add: initializeDB_def db_read_def db_write_def db_tasks_def)
  from f e m show ?thesis by blast
qed

theorem initializeDB_collection_witness:
  "(\<exists>db'. initializeDB True \<lparr>data = None, json_file = None\<rparr> = Inr db' \<and> db_tasks db' = Some [])
   \<and> (\<exists>db'. initializeDB True \<lparr>data = None, json_file = Some \<lparr>tasks = None\<rparr>\<rparr> = Inr db'
          \<and> db_tasks db' = None)
   \<and> initializeDB False \<lparr>data = None, json_file = None\<rparr> = Inl WriteError"
  using initializeDB_collection [of "\<lparr>data = None, json_file = None\<rparr>"]
    initializeDB_collection [of "\<lparr>data = None, json_file = Some \<lparr>tasks = None\<rparr>\<rparr>"]
  by simp

text \<open>
  The claim as written asks for an empty collection after loading \<^verbatim>\<open>{}\<close>, and for no
  failure. The default document only replaces \<^verbatim>\<open>null\<close>: the collection stays undefined,
  and the next \<^verbatim>\<open>addTask\<close> fails on \<^verbatim>\<open>push\<close>. And without any document, a refused write makes
  \<^verbatim>\<open>initializeDB\<close> fail.
\<close>

theorem initializeDB_missing_tasks_counterexample:
  "initializeDB True \<lparr>data = None, json_file = Some \<lparr>tasks = None\<rparr>\<rparr>
     = Inr \<lparr>data = Some \<lparr>tasks = None\<rparr>, json_file = Some \<lparr>tasks = None\<rparr>\<rparr>
   \<and> db_tasks \<lparr>data = Some \<lparr>tasks = None\<rparr>, json_file = Some \<lparr>tasks = None\<rparr>\<rparr> \<noteq> Some []
   \<and> fst (addTask sample_dayjs 1704067200000 ''2024-01-01'' milk_answers True
            \<lparr>data = Some \<lparr>tasks = None\<rparr>, json_file = Some \<lparr>tasks = None\<rparr>\<rparr>) = Fail TypeError
   \<and> initializeDB False \<lparr>data = None, json_file = None\<rparr> = Inl WriteError"
  by (simp add: initializeDB_def addTask_def run_defs sample_defs)

section \<open>Order of the collection\<close>

lemma map_task_id_update:
  assumes "i < length ts" and "task_id u = task_id (ts ! i)"
  shows "map task_id (ts[i := u]) = map task_id ts"
  using assms by (simp add: map_update list_update_same_conv)

text \<open>
  Claim C10: every command keeps the tasks it does not remove in their order. The collection
  after each command is given in full. \<^verbatim>\<open>addTask\<close> appends the new task at the end when the
  schema accepts it, and changes nothing otherwise. \<^verbatim>\<open>updateTask\<close> replaces the first task
  with the id, at its index, by the updated task when the schema accepts it; \<^verbatim>\<open>markComplete\<close>
  replaces it by the task with the flag set when some task is incomplete. Both keep the
  length, the sequence of ids and every other position. \<^verbatim>\<open>removeTask\<close>, once the user says
  yes, leaves the tasks with another id, and \<^verbatim>\<open>clearCompleted\<close> the incomplete ones: the
  old collection filtered, a subsequence of it. The write has no part in this.
\<close>

theorem commands_keep_order:
  assumes "db_tasks db = Some ts"
  shows "(\<exists>ts'. db_tasks (snd (addTask D now created a ok db)) = Some ts'
            \<and> ts' = (if taskSchema_issues D \<lparr>task_id = toString now, title = ans_title a,
                           description = ans_description a, dueDate = ans_dueDate a,
                           createdAt = created, priority = ans_priority a,
                           completed = False\<rparr> = []
                      then ts @ [\<lparr>task_id = toString now, title = ans_title a,
                           description = ans_description a, dueDate = ans_dueDate a,
                           createdAt = created, priority = ans_priority a,
                           completed = False\<rparr>]
                      else ts)
            \<and> prefix ts ts')
       \<and> (\<exists>ts'. db_tasks (snd (updateTask D taskId a ok db)) = Some ts'
            \<and> ts' = (case find (\<lambda>t. task_id t = taskId) ts of
                        None \<Rightarrow> ts
                      | Some t \<Rightarrow>
                         if taskSchema_issues D (t\<lparr>title := ans_title a,
                              description := ans_description a, dueDate := ans_dueDate a,
                              priority := ans_priority a\<rparr>) = []
                         then ts[nat (findIndex (\<lambda>t. task_id t = taskId) ts)
                                 := t\<lparr>title := ans_title a, description := ans_description a,
                                      dueDate := ans_dueDate a, priority := ans_priority a\<rparr>]
                         else ts)
            \<and> length ts' = length ts \<and> map task_id ts' = map task_id ts
            \<and> (\<forall>j<length ts. int j \<noteq> findIndex (\<lambda>t. task_id t = taskId) ts \<longrightarrow>
                  ts' ! j = ts ! j))
       \<and> (\<exists>ts'. db_tasks (snd (markComplete taskId ok db)) = Some ts'
            \<and> ts' = (if filter (\<lambda>t. \<not> completed t) ts = [] then ts
                      else (case find (\<lambda>t. task_id t = taskId) ts of
                              None \<Rightarrow> ts
                            | Some t \<Rightarrow> ts[nat (findIndex (\<lambda>t. task_id t = taskId) ts)
                                           := t\<lparr>completed := True\<rparr>]))
            \<and> length ts' = length ts \<and> map task_id ts' = map task_id ts
            \<and> (\<forall>j<length ts. int j \<noteq> findIndex (\<lambda>t. task_id t = taskId) ts \<longrightarrow>
                  ts' ! j = ts ! j))
       \<and> (\<forall>t. find (\<lambda>t. task_id t = taskId) ts = Some t \<longrightarrow>
            nat (findIndex (\<lambda>t. task_id t = taskId) ts) < length ts
            \<and> ts ! nat (findIndex (\<lambda>t. task_id t = taskId) ts) = t)
       \<and> (\<exists>ts'. db_tasks (snd (removeTask taskId confirm ok db)) = Some ts'
            \<and> ts' = (if confirm then filter (\<lambda>t. task_id t \<noteq> taskId) ts else ts)
            \<and> subseq ts' ts)
       \<and> (\<exists>ts'. db_tasks (snd (clearCompleted confirm ok db)) = Some ts'
            \<and> ts' = (if confirm then filter (\<lambda>t. \<not> completed t) ts else ts)
            \<and> subseq ts' ts)"
proof -
  let ?P = "\<lambda>t. task_id t = taskId"
  let ?i = "nat (findIndex ?P ts)"
  let ?new = "\<lparr>task_id = toString now, title = ans_title a,
                description = ans_description a, dueDate = ans_dueDate a,
                createdAt = created, priority = ans_priority a, completed = False\<rparr>"
  have st: "\<And>ts' f. db_tasks ((set_tasks ts' db)\<lparr>json_file := f\<rparr>) = Some ts'"
    "\<And>ts'. db_tasks (set_tasks ts' db) = Some ts'"
    using assms by (simp_all add: db_tasks_set_tasks)
  have add: "\<exists>ts'. db_tasks (snd (addTask D now created a ok db)) = Some ts'
            \<and> ts' = (if taskSchema_issues D ?new = [] then ts @ [?new] else ts)
            \<and> prefix ts ts'"
    using assms st by (simp add: addTask_run [OF assms] Let_def)
  have pos: "nat (findIndex ?P ts) < length ts \<and> ts ! ?i = t" if "find ?P ts = Some t" for t
    using findIndex_nat_less [OF that] find_Some_findIndex [OF that] by simp
  have upd_at: "length (ts[?i := v]) = length ts \<and> map task_id (ts[?i := v]) = map task_id ts
      \<and> (\<forall>j<length ts. int j \<noteq> findIndex ?P ts \<longrightarrow> ts[?i := v] ! j = ts ! j)"
    if f: "find ?P ts = Some u" and v: "task_id v = task_id u" for u v
  proof -
    from find_Some_findIndex [OF f] have i0: "0 \<le> findIndex ?P ts" and iu: "ts ! ?i = u"
      by simp_all
    have il: "?i < length ts" using f by (rule findIndex_nat_less)
    have m: "map task_id (ts[?i := v]) = map task_id ts"
      using il v iu by (simp add: map_task_id_update)
    have o: "\<forall>j<length ts. int j \<noteq> findIndex ?P ts \<longrightarrow> ts[?i := v] ! j = ts ! j"
      using i0 by (auto simp add: nth_list_update)
    from m o show ?thesis by simp
  qed
  have upd: "\<exists>ts'. db_tasks (snd (updateTask D taskId a ok db)) = Some ts'
            \<and> ts' = (case find ?P ts of
                        None \<Rightarrow> ts
                      | Some t \<Rightarrow>
                         if taskSchema_issues D (t\<lparr>title := ans_title a,
                              description := ans_description a, dueDate := ans_dueDate a,
                              priority := ans_priority a\<rparr>) = []
                         then ts[?i := t\<lparr>title := ans_title a, description := ans_description a,
                                      dueDate := ans_dueDate a, priority := ans_priority a\<rparr>]
                         else ts)
            \<and> length ts' = length ts \<and> map task_id ts' = map task_id ts
            \<and> (\<forall>j<length ts. int j \<noteq> findIndex ?P ts \<longrightarrow> ts' ! j = ts ! j)"
  proof (cases "find ?P ts")
    case None
    then show ?thesis using assms by (simp add: updateTask_absent)
  next
    case (Some u)
    let ?v = "u\<lparr>title := ans_title a, description := ans_description a,
                 dueDate := ans_dueDate a, priority := ans_priority a\<rparr>"
    have "task_id ?v = task_id u" by simp
    from upd_at [OF Some this] show ?thesis
      using assms st by (simp add: updateTask_run [OF assms Some] Some Let_def)
  qed
  have mark: "\<exists>ts'. db_tasks (snd (markComplete taskId ok db)) = Some ts'
            \<and> ts' = (if filter (\<lambda>t. \<not> completed t) ts = [] then ts
                      else (case find ?P ts of
                              None \<Rightarrow> ts
                            | Some t \<Rightarrow> ts[?i := t\<lparr>completed := True\<rparr>]))
            \<and> length ts' = length ts \<and> map task_id ts' = map task_id ts
            \<and> (\<forall>j<length ts. int j \<noteq> findIndex ?P ts \<longrightarrow> ts' ! j = ts ! j)"
  proof (cases "find ?P ts")
    case None
    then show ?thesis using assms by (simp add: markComplete_run [OF assms])
  next
    case (Some u)
    have "task_id (u\<lparr>completed := True\<rparr>) = task_id u" by simp
    from upd_at [OF Some this] show ?thesis
      using assms st by (simp add: markComplete_run [OF assms] Some Let_def)
  qed
  have rem: "\<exists>ts'. db_tasks (snd (removeTask taskId confirm ok db)) = Some ts'
            \<and> ts' = (if confirm then filter (\<lambda>t. task_id t \<noteq> taskId) ts else ts)
            \<and> subseq ts' ts"
    using assms st by (simp add: removeTask_run [OF assms] Let_def)
  have all_incomplete: "filter (\<lambda>t. \<not> completed t) ts = ts" if "filter (\<lambda>t. completed t) ts = []"
    using that by (simp add: filter_empty_conv filter_id_conv)
  have clr: "\<exists>ts'. db_tasks (snd (clearCompleted confirm ok db)) = Some ts'
            \<and> ts' = (if confirm then filter (\<lambda>t. \<not> completed t) ts else ts)
            \<and> subseq ts' ts"
  proof (cases "filter (\<lambda>t. completed t) ts = []")
    case True
    with all_incomplete [OF True] assms show ?thesis
      by (simp add: clearCompleted_run [OF assms])
  next
    case False
    then show ?thesis using assms st by (simp add: clearCompleted_run [OF assms] Let_def)
  qed
  from add upd mark pos rem clr show ?thesis by blast
qed

theorem commands_keep_order_witness:
  "db_tasks (store_of [milk, bread]) = Some [milk, bread]
   \<and> db_tasks (snd (addTask sample_dayjs 1704067200002 ''2024-01-03'' milk_answers True
                     (store_of [milk, bread])))
       = Some [milk, bread, \<lparr>task_id = ''1704067200002'', title = ''Buy milk'',
                 description = [], dueDate = ''2024-01-01'', createdAt = ''2024-01-03'',
                 priority = 2, completed = False\<rparr>]
   \<and> db_tasks (snd (updateTask sample_dayjs ''1704067200001'' milk_answers True
                     (store_of [milk, bread])))
       = Some [milk, bread\<lparr>title := ''Buy milk'', description := [],
                            dueDate := ''2024-01-01'', priority := 2\<rparr>]
   \<and> db_tasks (snd (markComplete ''1704067200000'' True (store_of [milk, bread])))
       = Some [milk\<lparr>completed := True\<rparr>, bread]
   \<and> db_tasks (snd (removeTask ''1704067200000'' True True (store_of [milk, bread])))
       = Some [bread]
   \<and> db_tasks (snd (clearCompleted True True (store_of [milk, bread]))) = Some [milk]"
proof -
  let ?S = "store_of [milk, bread]"
  have h: "db_tasks ?S = Some [milk, bread]"
    by (simp add: run_defs sample_defs)
  note k = commands_keep_order [OF h, of sample_dayjs 1704067200002 "''2024-01-03''"
      milk_answers True "''1704067200001''" True]
  note k' = commands_keep_order [OF h, of sample_dayjs 1704067200002 "''2024-01-03''"
      milk_answers True "''1704067200000''" True]
  note ka = k [THEN conjunct1]
  note ku = k [THEN conjunct2, THEN conjunct1]
  note km = k' [THEN conjunct2, THEN conjunct2, THEN conjunct1]
  note kr = k' [THEN conjunct2, THEN conjunct2, THEN conjunct2, THEN conjunct2, THEN conjunct1]
  note kc = k' [THEN conjunct2, THEN conjunct2, THEN conjunct2, THEN conjunct2, THEN conjunct2]
  have a: "db_tasks (snd (addTask sample_dayjs 1704067200002 ''2024-01-03'' milk_answers True ?S))
       = Some [milk, bread, \<lparr>task_id = ''1704067200002'', title = ''Buy milk'',
                 description = [], dueDate = ''2024-01-01'', createdAt = ''2024-01-03'',
                 priority = 2, completed = False\<rparr>]"
    using ka by (simp add: taskSchema_issues_def isValid_def toString_def digits.simps digit_def
        milk_answers_def sample_dayjs_def)
  have f1: "find (\<lambda>t. task_id t = ''1704067200001'') [milk, bread] = Some bread"
    and i1: "findIndex (\<lambda>t. task_id t = ''1704067200001'') [milk, bread] = 1"
    and f0: "find (\<lambda>t. task_id t = ''1704067200000'') [milk, bread] = Some milk"
    and i0: "findIndex (\<lambda>t. task_id t = ''1704067200000'') [milk, bread] = 0"
    and inc: "filter (\<lambda>t. \<not> completed t) [milk, bread] = [milk]"
    and rm: "filter (\<lambda>t. task_id t \<noteq> ''1704067200000'') [milk, bread] = [bread]"
    by (simp_all add: sample_defs)
  have v: "taskSchema_issues sample_dayjs (bread\<lparr>title := ans_title milk_answers,
      description := ans_description milk_answers, dueDate := ans_dueDate milk_answers,
      priority := ans_priority milk_answers\<rparr>) = []"
    by (simp add: taskSchema_issues_def isValid_def sample_defs)
  have u: "db_tasks (snd (updateTask sample_dayjs ''1704067200001'' milk_answers True ?S))
       = Some [milk, bread\<lparr>title := ''Buy milk'', description := [],
                            dueDate := ''2024-01-01'', priority := 2\<rparr>]"
    using ku f1 i1 v by (simp add: milk_answers_def)
  have m: "db_tasks (snd (markComplete ''1704067200000'' True ?S))
       = Some [milk\<lparr>completed := True\<rparr>, bread]"
    using km f0 i0 inc by simp
  have r: "db_tasks (snd (removeTask ''1704067200000'' True True ?S)) = Some [bread]"
    using kr rm by simp
  have c: "db_tasks (snd (clearCompleted True True ?S)) = Some [milk]"
    using kc inc by simp
  from h a u m r c show ?thesis by blast
qed

end
